theory Spec2Isabelle
  imports Complex_Main "HOL-Library.Word"
begin

section \<open>JavaScript strings\<close>

text \<open>
  A JavaScript string is a sequence of UTF-16 code units. Literals of the source are
  written \<open>js ''...''\<close>; the byte-order mark is the single unit \<open>0xFEFF\<close>.
\<close>

type_synonym jschar = "16 word"
type_synonym jsstring = "jschar list"

definition js :: "string \<Rightarrow> jsstring" where
  "js s = map (\<lambda>c. word_of_nat (of_char c)) s"

definition BOM :: jschar where
  "BOM = 0xFEFF"

text \<open>
  The units that \<open>String.prototype.trim\<close> strips and that the regular expression class
  \<open>\s\<close> matches: WhiteSpace and LineTerminator of ECMAScript (TAB, LF, VT, FF, CR, SP,
  NBSP, the other space separators, LS, PS and the byte-order mark).
\<close>

definition isWhiteSpace :: "jschar \<Rightarrow> bool" where
  "isWhiteSpace c \<longleftrightarrow>
     (0x9 \<le> c \<and> c \<le> 0xD) \<or> c = 0x20 \<or> c = 0xA0 \<or> c = 0x1680 \<or>
     (0x2000 \<le> c \<and> c \<le> 0x200A) \<or> c = 0x2028 \<or> c = 0x2029 \<or>
     c = 0x202F \<or> c = 0x205F \<or> c = 0x3000 \<or> c = 0xFEFF"

text \<open>The class \<open>\w\<close> without the unicode flag: \<open>[A-Za-z0-9_]\<close>.\<close>

definition isWordChar :: "jschar \<Rightarrow> bool" where
  "isWordChar c \<longleftrightarrow>
     (0x41 \<le> c \<and> c \<le> 0x5A) \<or> (0x61 \<le> c \<and> c \<le> 0x7A) \<or>
     (0x30 \<le> c \<and> c \<le> 0x39) \<or> c = 0x5F"

definition trim :: "jsstring \<Rightarrow> jsstring" where
  "trim s = rev (dropWhile isWhiteSpace (rev (dropWhile isWhiteSpace s)))"

text \<open>
  \<open>String.prototype.toLowerCase\<close>, unit by unit. The model is exact on ASCII, on the
  Latin-1 capitals and on the two code points beyond ASCII whose lower case contains an
  ASCII letter (U+0130 and U+212A). Any other unit is kept as it is, where the platform's
  Unicode tables may put another letter beyond ASCII in its place; no such unit is a
  space, and \<open>normalizeHeader\<close> deletes all of them in its next step but one.
\<close>

definition lowerUnit :: "jschar \<Rightarrow> jsstring" where
  "lowerUnit c =
     (if 0x41 \<le> c \<and> c \<le> 0x5A then [c + 0x20]
      else if 0xC0 \<le> c \<and> c \<le> 0xDE \<and> c \<noteq> 0xD7 then [c + 0x20]
      else if c = 0x130 then [0x69, 0x307]
      else if c = 0x212A then [0x6B]
      else [c])"

definition toLowerCase :: "jsstring \<Rightarrow> jsstring" where
  "toLowerCase s = concat (map lowerUnit s)"

text \<open>\<open>s.replace(/[class]/g, "")\<close>: every unit of the class is deleted.\<close>

definition deleteAll ::
  "(jschar \<Rightarrow> bool) \<Rightarrow> jsstring \<Rightarrow> jsstring" where
  "deleteAll p s = filter (\<lambda>c. \<not> p c) s"

text \<open>\<open>s.replace(/[class]+/g, "_")\<close>: every maximal run of the class becomes one underscore.\<close>

function collapseRuns ::
  "(jschar \<Rightarrow> bool) \<Rightarrow> jsstring \<Rightarrow> jsstring" where
  "collapseRuns p [] = []"
| "collapseRuns p (c # cs) =
     (if p c then 0x5F # collapseRuns p (dropWhile p cs) else c # collapseRuns p cs)"
  by pat_completeness auto
termination
  by (relation "measure (\<lambda>(p, s). length s)")
     (auto simp: length_dropWhile_le less_Suc_eq_le)

text \<open>
  \<open>s.split(/[class]+/)\<close>: the pieces between the maximal runs of the class. A run at
  either end leaves an empty piece there, and a string without a run is its only piece.
\<close>

function splitRuns ::
  "(jschar \<Rightarrow> bool) \<Rightarrow> jsstring \<Rightarrow> jsstring list" where
  "splitRuns p s =
     (case dropWhile (\<lambda>c. \<not> p c) s of
        [] \<Rightarrow> [s]
      | d # rest \<Rightarrow> takeWhile (\<lambda>c. \<not> p c) s # splitRuns p (dropWhile p rest))"
  by pat_completeness auto
termination
proof (relation "measure (\<lambda>(p, s). length s)")
  show "wf (measure (\<lambda>(p, s). length s))" by simp
next
  fix p :: "jschar \<Rightarrow> bool" and s :: jsstring and d rest
  assume h: "dropWhile (\<lambda>c. \<not> p c) s = d # rest"
  have "length (dropWhile p rest) \<le> length rest"
    by (rule length_dropWhile_le)
  moreover have "length rest < length (dropWhile (\<lambda>c. \<not> p c) s)"
    using h by simp
  moreover have "length (dropWhile (\<lambda>c. \<not> p c) s) \<le> length s"
    by (rule length_dropWhile_le)
  ultimately show "((p, dropWhile p rest), (p, s)) \<in> measure (\<lambda>(p, s). length s)"
    by simp
qed

section \<open>Header normalizer and field resolver (ofac-parser.ts)\<close>

definition isHyphen :: "jschar \<Rightarrow> bool" where
  "isHyphen c \<longleftrightarrow> c = 0x2D"

text \<open>
  \<open>normalizeHeader\<close> of ofac-parser.ts: trim, lower case, delete every byte-order mark,
  delete \<open>[^\w\s-]\<close>, turn each run of \<open>[-\s]\<close> into an underscore.
\<close>

definition normalizeHeader :: "jsstring \<Rightarrow> jsstring" where
  "normalizeHeader header =
     collapseRuns (\<lambda>c. isHyphen c \<or> isWhiteSpace c)
       (deleteAll (\<lambda>c. \<not> (isWordChar c \<or> isWhiteSpace c \<or> isHyphen c))
         (deleteAll (\<lambda>c. c = BOM)
           (toLowerCase (trim header))))"

text \<open>
  The copy of \<open>normalizeHeader\<close> in the stand-alone ofac-update.ts: it deletes
  \<open>[^\w\s]\<close>, hyphens included, and turns each run of \<open>\s\<close> into an underscore.
\<close>

definition normalizeHeader_update :: "jsstring \<Rightarrow> jsstring" where
  "normalizeHeader_update header =
     collapseRuns isWhiteSpace
       (deleteAll (\<lambda>c. \<not> (isWordChar c \<or> isWhiteSpace c))
         (deleteAll (\<lambda>c. c = BOM)
           (toLowerCase (trim header))))"

text \<open>
  The algorithm in the words of the specification, for comparison: strip a leading
  byte-order mark if present; trim; lower case; remove what is not alphanumeric,
  underscore, whitespace or hyphen; collapse each run of whitespace or hyphens.
\<close>

definition stripLeadingBOM :: "jsstring \<Rightarrow> jsstring" where
  "stripLeadingBOM s = (case s of [] \<Rightarrow> [] | c # cs \<Rightarrow> if c = BOM then cs else s)"

definition spec_normalizeHeader :: "jsstring \<Rightarrow> jsstring" where
  "spec_normalizeHeader header =
     collapseRuns (\<lambda>c. isWhiteSpace c \<or> isHyphen c)
       (deleteAll (\<lambda>c. \<not> (isWordChar c \<or> isWhiteSpace c \<or> isHyphen c))
         (toLowerCase (trim (stripLeadingBOM header))))"

text \<open>
  A row is a \<open>Record<string, string>\<close>: a key that the row lacks reads \<open>undefined\<close>,
  here \<open>None\<close>.
\<close>

type_synonym row = "jsstring \<rightharpoonup> jsstring"

fun firstDefined :: "row \<Rightarrow> jsstring list \<Rightarrow> jsstring option" where
  "firstDefined row [] = None"
| "firstDefined row (k # keys) =
     (case row k of
        Some v \<Rightarrow> if trim v \<noteq> [] then Some v else firstDefined row keys
      | None \<Rightarrow> firstDefined row keys)"

text \<open>Truthiness of a \<open>string | undefined\<close>: \<open>undefined\<close> and the empty string are falsy.\<close>

definition truthy :: "jsstring option \<Rightarrow> bool" where
  "truthy v = (case v of None \<Rightarrow> False | Some s \<Rightarrow> s \<noteq> [])"

text \<open>\<open>v ? String(v) : undefined\<close>\<close>

definition orUndefined :: "jsstring option \<Rightarrow> jsstring option" where
  "orUndefined v = (if truthy v then v else None)"

section \<open>Entities (ofac-parser.ts)\<close>

record addressRecord =
  address :: "jsstring option"
  city :: "jsstring option"
  country :: "jsstring option"

record OfacEntity =
  uid :: jsstring
  name :: jsstring
  type :: "jsstring option"
  programs :: "jsstring list"
  remarks :: "jsstring option"
  aka :: "jsstring list"
  addresses :: "addressRecord list"

definition UID_KEYS :: "jsstring list" where
  "UID_KEYS = [js ''ent_num'', js ''entnum'', js ''uid'', js ''id'']"

definition NAME_KEYS :: "jsstring list" where
  "NAME_KEYS = [js ''sdn_name'', js ''sdnname'', js ''name'', js ''full_name'']"

definition TYPE_KEYS :: "jsstring list" where
  "TYPE_KEYS = [js ''sdn_type'', js ''sdntype'', js ''type'']"

definition PROGRAM_KEYS :: "jsstring list" where
  "PROGRAM_KEYS = [js ''program'', js ''programs'', js ''sanctions_program'']"

definition REMARKS_KEYS :: "jsstring list" where
  "REMARKS_KEYS = [js ''remarks'', js ''comment'', js ''comments'']"

definition ALT_NAME_KEYS :: "jsstring list" where
  "ALT_NAME_KEYS = [js ''alt_name'', js ''altname'', js ''name'', js ''alternate_name'']"

definition ADDRESS_KEYS :: "jsstring list" where
  "ADDRESS_KEYS = [js ''address'', js ''addr'', js ''street'']"

definition CITY_KEYS :: "jsstring list" where
  "CITY_KEYS = [js ''city'', js ''city_name'']"

definition COUNTRY_KEYS :: "jsstring list" where
  "COUNTRY_KEYS = [js ''country'', js ''country_name'']"

definition isProgramSeparator :: "jschar \<Rightarrow> bool" where
  "isProgramSeparator c \<longleftrightarrow> c = 0x2C \<or> c = 0x3B"

text \<open>\<open>programRaw ? String(programRaw).split(/[,;]+/).map(trim).filter(Boolean) : []\<close>\<close>

definition splitPrograms :: "jsstring \<Rightarrow> jsstring list" where
  "splitPrograms programRaw =
     (if programRaw \<noteq> []
      then filter (\<lambda>s. s \<noteq> []) (map trim (splitRuns isProgramSeparator programRaw))
      else [])"

text \<open>
  The callback that \<open>extractEntities\<close> maps over the rows: \<open>None\<close> is its \<open>null\<close> for
  a skipped row. The skip counter and the log lines have no part in the result.
\<close>

definition extractRow :: "row \<Rightarrow> OfacEntity option" where
  "extractRow row =
     (let uid = firstDefined row UID_KEYS;
          name = firstDefined row NAME_KEYS
      in case (uid, name) of
           (Some u, Some n) \<Rightarrow>
             if \<not> truthy uid \<or> \<not> truthy name then None
             else
               let type = firstDefined row TYPE_KEYS;
                   programRaw = (case firstDefined row PROGRAM_KEYS of
                                   None \<Rightarrow> [] | Some p \<Rightarrow> p);
                   remarks = firstDefined row REMARKS_KEYS
               in Some \<lparr> uid = u, name = n, type = orUndefined type,
                         programs = splitPrograms programRaw,
                         remarks = orUndefined remarks, aka = [], addresses = [] \<rparr>
         | _ \<Rightarrow> None)"

text \<open>\<open>rows.map(callback).filter(Boolean)\<close>\<close>

definition extractEntities :: "row list \<Rightarrow> OfacEntity list" where
  "extractEntities rows = List.map_filter extractRow rows"


section \<open>Consolidators (ofac-parser.ts)\<close>

text \<open>
  The consolidators change entity objects in place, reached through a \<open>Map\<close> from uid
  to object. The array that \<open>extractEntities\<close> returns holds one fresh object per
  position, so an object is identified with its position: the map sends a uid to a
  position, and a \<open>push\<close> updates the entity there. \<open>entityMap.set\<close> in array order
  lets a later entity with the same uid replace an earlier one.
\<close>

fun buildEntityMap ::
  "nat \<Rightarrow> OfacEntity list \<Rightarrow> (jsstring \<rightharpoonup> nat) \<Rightarrow> (jsstring \<rightharpoonup> nat)" where
  "buildEntityMap i [] m = m"
| "buildEntityMap i (entity # rest) m = buildEntityMap (Suc i) rest (m(uid entity \<mapsto> i))"

definition entityMap :: "OfacEntity list \<Rightarrow> (jsstring \<rightharpoonup> nat)" where
  "entityMap entities = buildEntityMap 0 entities Map.empty"

definition pushAka :: "jsstring \<Rightarrow> OfacEntity \<Rightarrow> OfacEntity" where
  "pushAka altName entity = entity\<lparr> aka := aka entity @ [altName] \<rparr>"

definition pushAddress :: "addressRecord \<Rightarrow> OfacEntity \<Rightarrow> OfacEntity" where
  "pushAddress a entity = entity\<lparr> addresses := addresses entity @ [a] \<rparr>"

text \<open>The body of \<open>altRows.forEach\<close>.\<close>

definition altStep ::
  "(jsstring \<rightharpoonup> nat) \<Rightarrow> OfacEntity list \<Rightarrow> row \<Rightarrow> OfacEntity list" where
  "altStep m entities row =
     (let uid = firstDefined row UID_KEYS;
          altName = firstDefined row ALT_NAME_KEYS
      in case (uid, altName) of
           (Some u, Some a) \<Rightarrow>
             if \<not> truthy uid \<or> \<not> truthy altName then entities
             else (case m u of
                     Some i \<Rightarrow> entities[i := pushAka a (entities ! i)]
                   | None \<Rightarrow> entities)
         | _ \<Rightarrow> entities)"

definition consolidateAltData ::
  "OfacEntity list \<Rightarrow> row list \<Rightarrow> OfacEntity list" where
  "consolidateAltData entities altRows = foldl (altStep (entityMap entities)) entities altRows"

text \<open>The body of \<open>addRows.forEach\<close>.\<close>

definition addStep ::
  "(jsstring \<rightharpoonup> nat) \<Rightarrow> OfacEntity list \<Rightarrow> row \<Rightarrow> OfacEntity list" where
  "addStep m entities row =
     (let uid = firstDefined row UID_KEYS
      in case uid of
           Some u \<Rightarrow>
             if \<not> truthy uid then entities
             else (case m u of
                     Some i \<Rightarrow>
                       let address = firstDefined row ADDRESS_KEYS;
                           city = firstDefined row CITY_KEYS;
                           country = firstDefined row COUNTRY_KEYS
                       in if truthy address \<or> truthy city \<or> truthy country
                          then entities[i := pushAddress
                                 \<lparr> address = orUndefined address, city = orUndefined city,
                                   country = orUndefined country \<rparr> (entities ! i)]
                          else entities
                   | None \<Rightarrow> entities)
         | None \<Rightarrow> entities)"

definition consolidateAddData ::
  "OfacEntity list \<Rightarrow> row list \<Rightarrow> OfacEntity list" where
  "consolidateAddData entities addRows = foldl (addStep (entityMap entities)) entities addRows"

section \<open>Platform\<close>

text \<open>
  A JavaScript number is an IEEE double: not-a-number, an infinity, or a finite value,
  which is a real number.
\<close>

datatype jsnum = NaN | NegInf | Num real | PosInf

fun numLess :: "jsnum \<Rightarrow> jsnum \<Rightarrow> bool" where
  "numLess NaN _ = False"
| "numLess _ NaN = False"
| "numLess NegInf b = (b \<noteq> NegInf)"
| "numLess (Num x) NegInf = False"
| "numLess (Num x) (Num y) = (x < y)"
| "numLess (Num x) PosInf = True"
| "numLess PosInf _ = False"

text \<open>\<open>Math.min(a, b)\<close>: not-a-number when either argument is.\<close>

definition Math_min :: "jsnum \<Rightarrow> jsnum \<Rightarrow> jsnum" where
  "Math_min a b = (if a = NaN \<or> b = NaN then NaN else if numLess a b then a else b)"

text \<open>
  What a handler throws: \<open>new Error(message)\<close>, also for the exceptions of the libraries.
  \<open>Untyped\<close> is no exception: it marks the point where the source would go on with a
  parsed dataset that is no sequence of entities, which the typed model cannot follow.
\<close>

datatype error = Error jsstring | Untyped

text \<open>The outcome of \<open>fetch(url)\<close>: a rejection, or a response whose \<open>text()\<close> may reject.\<close>

datatype fetched =
    Rejected jsstring
  | Responded bool nat jsstring "jsstring option"

record fuseHit =
  item :: OfacEntity
  score :: "jsnum option"

section \<open>JSON text\<close>

text \<open>
  \<open>JSON.stringify\<close> and \<open>JSON.parse\<close> as ECMAScript defines them, on the values that
  the dataset consists of: strings, arrays, objects and the literals. A number appears as
  the text of its literal; no entity holds one.
\<close>

datatype json =
    JNull
  | JBool bool
  | JNumber jsstring
  | JString jsstring
  | JArray "json list"
  | JObject "(jsstring \<times> json) list"

text \<open>
  \<open>QuoteJSONString\<close>: a quotation mark, a backslash and the control units are escaped,
  and so is a surrogate that has no partner; a surrogate pair and any other unit stand
  for themselves.
\<close>

definition isLeadSurrogate :: "jschar \<Rightarrow> bool" where
  "isLeadSurrogate c \<longleftrightarrow> 0xD800 \<le> c \<and> c \<le> 0xDBFF"

definition isTrailSurrogate :: "jschar \<Rightarrow> bool" where
  "isTrailSurrogate c \<longleftrightarrow> 0xDC00 \<le> c \<and> c \<le> 0xDFFF"

definition hexDigit :: "nat \<Rightarrow> jschar" where
  "hexDigit d = word_of_nat (if d < 10 then 48 + d else 87 + d)"

definition unicodeEscape :: "jschar \<Rightarrow> jsstring" where
  "unicodeEscape c =
     [0x5C, 0x75, hexDigit (unat c div 4096), hexDigit (unat c div 256 mod 16),
      hexDigit (unat c div 16 mod 16), hexDigit (unat c mod 16)]"

definition escapeUnit :: "jschar \<Rightarrow> jsstring" where
  "escapeUnit c =
     (if c = 0x08 then [0x5C, 0x62]
      else if c = 0x09 then [0x5C, 0x74]
      else if c = 0x0A then [0x5C, 0x6E]
      else if c = 0x0C then [0x5C, 0x66]
      else if c = 0x0D then [0x5C, 0x72]
      else if c = 0x22 then [0x5C, 0x22]
      else if c = 0x5C then [0x5C, 0x5C]
      else if c < 0x20 then unicodeEscape c
      else [c])"

fun quoteUnits :: "jsstring \<Rightarrow> jsstring" where
  "quoteUnits [] = []"
| "quoteUnits [c] =
     (if isLeadSurrogate c \<or> isTrailSurrogate c then unicodeEscape c else escapeUnit c)"
| "quoteUnits (c # d # cs) =
     (if isLeadSurrogate c \<and> isTrailSurrogate d then c # d # quoteUnits cs
      else if isLeadSurrogate c \<or> isTrailSurrogate c then unicodeEscape c @ quoteUnits (d # cs)
      else escapeUnit c @ quoteUnits (d # cs))"

definition quoteJSONString :: "jsstring \<Rightarrow> jsstring" where
  "quoteJSONString s = 0x22 # quoteUnits s @ [0x22]"

text \<open>
  The text of a value without indentation; the elements of an array and the members of
  an object are separated by commas.
\<close>

fun stringify :: "json \<Rightarrow> jsstring"
  and stringifyElements :: "json list \<Rightarrow> jsstring"
  and stringifyMembers :: "(jsstring \<times> json) list \<Rightarrow> jsstring" where
  "stringify JNull = js ''null''"
| "stringify (JBool b) = (if b then js ''true'' else js ''false'')"
| "stringify (JNumber literal) = literal"
| "stringify (JString s) = quoteJSONString s"
| "stringify (JArray vs) = 0x5B # stringifyElements vs @ [0x5D]"
| "stringify (JObject ms) = 0x7B # stringifyMembers ms @ [0x7D]"
| "stringifyElements [] = []"
| "stringifyElements [v] = stringify v"
| "stringifyElements (v # w # vs) = stringify v @ 0x2C # stringifyElements (w # vs)"
| "stringifyMembers [] = []"
| "stringifyMembers [(k, v)] = quoteJSONString k @ 0x3A # stringify v"
| "stringifyMembers ((k, v) # m # ms) =
     quoteJSONString k @ 0x3A # stringify v @ 0x2C # stringifyMembers (m # ms)"

definition JSON_stringify :: "json \<Rightarrow> jsstring" where
  "JSON_stringify v = stringify v"

text \<open>
  Reading a string after its opening quotation mark, up to the closing one: the text of
  the string and the rest of the input. A control unit must be escaped.
\<close>

definition hexValue :: "jschar \<Rightarrow> nat option" where
  "hexValue c =
     (let n = unat c
      in if 48 \<le> n \<and> n \<le> 57 then Some (n - 48)
         else if 97 \<le> n \<and> n \<le> 102 then Some (n - 87)
         else if 65 \<le> n \<and> n \<le> 70 then Some (n - 55)
         else None)"

definition unescape :: "jschar \<Rightarrow> jschar option" where
  "unescape e =
     (if e = 0x22 then Some 0x22
      else if e = 0x5C then Some 0x5C
      else if e = 0x2F then Some 0x2F
      else if e = 0x62 then Some 0x08
      else if e = 0x66 then Some 0x0C
      else if e = 0x6E then Some 0x0A
      else if e = 0x72 then Some 0x0D
      else if e = 0x74 then Some 0x09
      else None)"

definition hex4 :: "jschar \<Rightarrow> jschar \<Rightarrow> jschar \<Rightarrow> jschar \<Rightarrow> jschar option" where
  "hex4 a b c d =
     (case (hexValue a, hexValue b, hexValue c, hexValue d) of
        (Some x, Some y, Some z, Some w) \<Rightarrow> Some (word_of_nat (4096 * x + 256 * y + 16 * z + w))
      | _ \<Rightarrow> None)"

definition consUnit :: "jschar \<Rightarrow> (jsstring \<times> jsstring) option \<Rightarrow> (jsstring \<times> jsstring) option" where
  "consUnit c r = (case r of None \<Rightarrow> None | Some (s, rest) \<Rightarrow> Some (c # s, rest))"

fun takeEscape :: "jsstring \<Rightarrow> (jschar \<times> jsstring) option" where
  "takeEscape [] = None"
| "takeEscape (e # r) =
     (if e = 0x75 then
        (case r of
           a # b # c # d # r' \<Rightarrow> map_option (\<lambda>u. (u, r')) (hex4 a b c d)
         | _ \<Rightarrow> None)
      else map_option (\<lambda>u. (u, r)) (unescape e))"

function parseChars :: "jsstring \<Rightarrow> (jsstring \<times> jsstring) option" where
  "parseChars [] = None"
| "parseChars (c # cs) =
     (if c = 0x22 then Some ([], cs)
      else if c = 0x5C then
        (case takeEscape cs of
           None \<Rightarrow> None
         | Some (u, r) \<Rightarrow> consUnit u (parseChars r))
      else if c < 0x20 then None
      else consUnit c (parseChars cs))"
  by pat_completeness auto
termination
proof (relation "measure length", goal_cases)
  case 1
  show ?case by simp
next
  case (2 c cs escaped u r)
  then have "takeEscape cs = Some (u, r)" by simp
  then have "length r < length cs"
    by (cases cs) (auto split: if_splits list.splits)
  then show ?case by simp
next
  case (3 c cs)
  show ?case by simp
qed

text \<open>The grammar of a number: \<open>-? (0 | [1-9][0-9]*) (. [0-9]+)? ([eE] [+-]? [0-9]+)?\<close>.\<close>

definition isDigit :: "jschar \<Rightarrow> bool" where
  "isDigit c \<longleftrightarrow> 0x30 \<le> c \<and> c \<le> 0x39"

definition scanDigits :: "jsstring \<Rightarrow> (jsstring \<times> jsstring) option" where
  "scanDigits s =
     (if takeWhile isDigit s = [] then None else Some (takeWhile isDigit s, dropWhile isDigit s))"

definition scanInteger :: "jsstring \<Rightarrow> (jsstring \<times> jsstring) option" where
  "scanInteger s =
     (case s of
        [] \<Rightarrow> None
      | c # r \<Rightarrow> if c = 0x30 then Some ([c], r) else scanDigits s)"

definition scanFraction :: "jsstring \<Rightarrow> (jsstring \<times> jsstring) option" where
  "scanFraction s =
     (case s of
        [] \<Rightarrow> Some ([], s)
      | c # r \<Rightarrow>
          if c = 0x2E then (case scanDigits r of None \<Rightarrow> None | Some (ds, t) \<Rightarrow> Some (c # ds, t))
          else Some ([], s))"

definition scanSign :: "jsstring \<Rightarrow> jsstring \<times> jsstring" where
  "scanSign s =
     (case s of [] \<Rightarrow> ([], s) | c # r \<Rightarrow> if c = 0x2B \<or> c = 0x2D then ([c], r) else ([], s))"

definition scanExponent :: "jsstring \<Rightarrow> (jsstring \<times> jsstring) option" where
  "scanExponent s =
     (case s of
        [] \<Rightarrow> Some ([], s)
      | c # r \<Rightarrow>
          if c = 0x65 \<or> c = 0x45 then
            (case scanDigits (snd (scanSign r)) of
               None \<Rightarrow> None
             | Some (ds, t) \<Rightarrow> Some (c # fst (scanSign r) @ ds, t))
          else Some ([], s))"

definition scanNumber :: "jsstring \<Rightarrow> (jsstring \<times> jsstring) option" where
  "scanNumber s =
     (let (minus, s1) = (case s of [] \<Rightarrow> ([], s) | c # r \<Rightarrow> if c = 0x2D then ([c], r) else ([], s))
      in case scanInteger s1 of
           None \<Rightarrow> None
         | Some (i, s2) \<Rightarrow>
             (case scanFraction s2 of
                None \<Rightarrow> None
              | Some (f, s3) \<Rightarrow>
                  (case scanExponent s3 of
                     None \<Rightarrow> None
                   | Some (e, s4) \<Rightarrow> Some (minus @ i @ f @ e, s4))))"

text \<open>
  The parser of values, of the elements of an array after its bracket and of the members
  of an object after its brace. Its first argument bounds the number of nested calls; for
  \<open>JSON.parse\<close> the bound is twice the length of the text and two more, where two nested
  calls always read a unit between them.
\<close>

definition isJsonSpace :: "jschar \<Rightarrow> bool" where
  "isJsonSpace c \<longleftrightarrow> c = 0x20 \<or> c = 0x09 \<or> c = 0x0A \<or> c = 0x0D"

definition skipWs :: "jsstring \<Rightarrow> jsstring" where
  "skipWs s = dropWhile isJsonSpace s"

definition stripPrefix :: "jsstring \<Rightarrow> jsstring \<Rightarrow> jsstring option" where
  "stripPrefix p s = (if take (length p) s = p then Some (drop (length p) s) else None)"

definition parseLiteral :: "jsstring \<Rightarrow> (json \<times> jsstring) option" where
  "parseLiteral s =
     (case stripPrefix (js ''true'') s of Some r \<Rightarrow> Some (JBool True, r) | None \<Rightarrow>
      case stripPrefix (js ''false'') s of Some r \<Rightarrow> Some (JBool False, r) | None \<Rightarrow>
      case stripPrefix (js ''null'') s of Some r \<Rightarrow> Some (JNull, r) | None \<Rightarrow>
      case scanNumber s of Some (literal, r) \<Rightarrow> Some (JNumber literal, r) | None \<Rightarrow> None)"

fun parseValue :: "nat \<Rightarrow> jsstring \<Rightarrow> (json \<times> jsstring) option"
  and parseElements :: "nat \<Rightarrow> jsstring \<Rightarrow> (json list \<times> jsstring) option"
  and parseMembers :: "nat \<Rightarrow> jsstring \<Rightarrow> ((jsstring \<times> json) list \<times> jsstring) option" where
  "parseValue 0 s = None"
| "parseValue (Suc n) s =
     (case skipWs s of
        [] \<Rightarrow> None
      | c # cs \<Rightarrow>
          if c = 0x22 then
            (case parseChars cs of None \<Rightarrow> None | Some (str, r) \<Rightarrow> Some (JString str, r))
          else if c = 0x5B then
            (case skipWs cs of
               [] \<Rightarrow> None
             | d # r \<Rightarrow>
                 if d = 0x5D then Some (JArray [], r)
                 else (case parseElements n cs of
                         None \<Rightarrow> None
                       | Some (vs, r') \<Rightarrow> Some (JArray vs, r')))
          else if c = 0x7B then
            (case skipWs cs of
               [] \<Rightarrow> None
             | d # r \<Rightarrow>
                 if d = 0x7D then Some (JObject [], r)
                 else (case parseMembers n cs of
                         None \<Rightarrow> None
                       | Some (ms, r') \<Rightarrow> Some (JObject ms, r')))
          else parseLiteral (c # cs))"
| "parseElements 0 s = None"
| "parseElements (Suc n) s =
     (case parseValue n s of
        None \<Rightarrow> None
      | Some (v, r) \<Rightarrow>
          (case skipWs r of
             [] \<Rightarrow> None
           | d # r' \<Rightarrow>
               if d = 0x2C then
                 (case parseElements n r' of
                    None \<Rightarrow> None
                  | Some (vs, r'') \<Rightarrow> Some (v # vs, r''))
               else if d = 0x5D then Some ([v], r')
               else None))"
| "parseMembers 0 s = None"
| "parseMembers (Suc n) s =
     (case skipWs s of
        [] \<Rightarrow> None
      | c # cs \<Rightarrow>
          if c \<noteq> 0x22 then None
          else
            (case parseChars cs of
               None \<Rightarrow> None
             | Some (k, r) \<Rightarrow>
                 (case skipWs r of
                    [] \<Rightarrow> None
                  | d # r' \<Rightarrow>
                      if d \<noteq> 0x3A then None
                      else
                        (case parseValue n r' of
                           None \<Rightarrow> None
                         | Some (v, r'') \<Rightarrow>
                             (case skipWs r'' of
                                [] \<Rightarrow> None
                              | e # t \<Rightarrow>
                                  if e = 0x2C then
                                    (case parseMembers n t of
                                       None \<Rightarrow> None
                                     | Some (ms, t') \<Rightarrow> Some ((k, v) # ms, t'))
                                  else if e = 0x7D then Some ([(k, v)], t)
                                  else None)))))"

text \<open>
  What \<open>JSON.parse\<close> throws is a \<open>SyntaxError\<close>; the message is not modelled.
\<close>

definition JSON_parse :: "jsstring \<Rightarrow> error + json" where
  "JSON_parse s =
     (case parseValue (2 * length s + 2) s of
        None \<Rightarrow> Inl (Error (js ''SyntaxError''))
      | Some (v, rest) \<Rightarrow>
          if skipWs rest = [] then Inr v else Inl (Error (js ''SyntaxError'')))"

section \<open>Platform functions\<close>

text \<open>
  The functions of the platform and of the libraries that stay parameters of the model:
  \<open>Number\<close> on a string, \<open>fuse.search\<close> of Fuse.js on the indexed entities,
  \<open>Buffer.from(s, "utf8")\<close> and \<open>toString("utf8")\<close>, \<open>zlib.gzipSync\<close> and
  \<open>zlib.gunzipSync\<close>, the hex digest of SHA-256, \<open>parse\<close> of csv-parse with its
  \<open>columns\<close> function, and \<open>fetch\<close>. The handlers never look into a buffer, they only
  hand it from one of these functions to the next: \<open>'b\<close> is the type of the buffers.
\<close>

record 'b platform =
  toNumber :: "jsstring \<Rightarrow> jsnum"
  fuseSearch :: "OfacEntity list \<Rightarrow> jsstring \<Rightarrow> jsnum \<Rightarrow> fuseHit list"
  utf8Encode :: "jsstring \<Rightarrow> 'b"
  utf8Decode :: "'b \<Rightarrow> jsstring"
  gzipSync :: "'b \<Rightarrow> 'b"
  gunzipSync :: "'b \<Rightarrow> error + 'b"
  sha256 :: "jsstring \<Rightarrow> jsstring"
  csvParse :: "(jsstring \<Rightarrow> jsstring) \<Rightarrow> jsstring \<Rightarrow> error + row list"
  fetch :: "jsstring \<Rightarrow> fetched"

section \<open>Dataset codec (ofac-update.ts, ofac-search.ts, ofac-entity.ts)\<close>

text \<open>
  The JSON value of an entity: \<open>JSON.stringify\<close> walks the properties of an object in
  order and leaves out a property whose value is \<open>undefined\<close>.
\<close>

definition optionalProperty ::
  "string \<Rightarrow> jsstring option \<Rightarrow> (jsstring \<times> json) list" where
  "optionalProperty k v = (case v of None \<Rightarrow> [] | Some s \<Rightarrow> [(js k, JString s)])"

definition addressToJson :: "addressRecord \<Rightarrow> json" where
  "addressToJson a =
     JObject (optionalProperty ''address'' (address a) @ optionalProperty ''city'' (city a)
              @ optionalProperty ''country'' (country a))"

definition entityToJson :: "OfacEntity \<Rightarrow> json" where
  "entityToJson e =
     JObject ([(js ''uid'', JString (uid e)), (js ''name'', JString (name e))]
              @ optionalProperty ''type'' (type e)
              @ [(js ''programs'', JArray (map JString (programs e)))]
              @ optionalProperty ''remarks'' (remarks e)
              @ [(js ''aka'', JArray (map JString (aka e))),
                 (js ''addresses'', JArray (map addressToJson (addresses e)))])"

definition entitiesToJson :: "OfacEntity list \<Rightarrow> json" where
  "entitiesToJson entities = JArray (map entityToJson entities)"

text \<open>
  \<open>JSON.parse(json) as OfacEntity[]\<close>: the cast checks nothing, and a property that the
  parsed object lacks reads \<open>undefined\<close>. Where the text names a property twice, the
  last member counts. A parsed value that is no array of objects with
  the required string and array properties has no counterpart among the typed entities,
  and the functions below give \<open>None\<close> for it.
\<close>

definition property ::
  "(jsstring \<times> json) list \<Rightarrow> string \<Rightarrow> json option" where
  "property props k = map_of (rev props) (js k)"

definition stringProperty ::
  "(jsstring \<times> json) list \<Rightarrow> string \<Rightarrow> jsstring option" where
  "stringProperty props k = (case property props k of Some (JString s) \<Rightarrow> Some s | _ \<Rightarrow> None)"

definition optionalStringProperty ::
  "(jsstring \<times> json) list \<Rightarrow> string \<Rightarrow> jsstring option option" where
  "optionalStringProperty props k =
     (case property props k of
        None \<Rightarrow> Some None
      | Some (JString s) \<Rightarrow> Some (Some s)
      | _ \<Rightarrow> None)"

fun stringOfJson :: "json \<Rightarrow> jsstring option" where
  "stringOfJson (JString s) = Some s"
| "stringOfJson _ = None"

fun allSome :: "'a option list \<Rightarrow> 'a list option" where
  "allSome [] = Some []"
| "allSome (x # xs) =
     (case x of None \<Rightarrow> None
      | Some y \<Rightarrow> (case allSome xs of None \<Rightarrow> None | Some ys \<Rightarrow> Some (y # ys)))"

definition stringArrayProperty ::
  "(jsstring \<times> json) list \<Rightarrow> string \<Rightarrow> jsstring list option" where
  "stringArrayProperty props k =
     (case property props k of
        Some (JArray vs) \<Rightarrow> allSome (map stringOfJson vs)
      | _ \<Rightarrow> None)"

fun addressFromJson :: "json \<Rightarrow> addressRecord option" where
  "addressFromJson (JObject props) =
     (case (optionalStringProperty props ''address'', optionalStringProperty props ''city'',
            optionalStringProperty props ''country'') of
        (Some a, Some c, Some k) \<Rightarrow> Some \<lparr> address = a, city = c, country = k \<rparr>
      | _ \<Rightarrow> None)"
| "addressFromJson _ = None"

fun entityFromJson :: "json \<Rightarrow> OfacEntity option" where
  "entityFromJson (JObject props) =
     (case (stringProperty props ''uid'', stringProperty props ''name'',
            optionalStringProperty props ''type'', stringArrayProperty props ''programs'',
            optionalStringProperty props ''remarks'', stringArrayProperty props ''aka'',
            (case property props ''addresses'' of
               Some (JArray vs) \<Rightarrow> allSome (map addressFromJson vs)
             | _ \<Rightarrow> None)) of
        (Some u, Some n, Some t, Some p, Some r, Some a, Some d) \<Rightarrow>
          Some \<lparr> uid = u, name = n, type = t, programs = p, remarks = r, aka = a,
                 addresses = d \<rparr>
      | _ \<Rightarrow> None)"
| "entityFromJson _ = None"

fun entitiesFromJson :: "json \<Rightarrow> OfacEntity list option" where
  "entitiesFromJson (JArray vs) = allSome (map entityFromJson vs)"
| "entitiesFromJson _ = None"

text \<open>\<open>zlib.gzipSync(Buffer.from(JSON.stringify(entities), "utf8"))\<close>\<close>

definition encodeDataset :: "'b platform \<Rightarrow> OfacEntity list \<Rightarrow> 'b" where
  "encodeDataset P entities =
     gzipSync P (utf8Encode P (JSON_stringify (entitiesToJson entities)))"

text \<open>\<open>JSON.parse(zlib.gunzipSync(Buffer.from(gz)).toString("utf8")) as OfacEntity[]\<close>\<close>

definition decodeDataset ::
  "'b platform \<Rightarrow> 'b \<Rightarrow> error + OfacEntity list" where
  "decodeDataset P gz =
     (case gunzipSync P gz of
        Inl err \<Rightarrow> Inl err
      | Inr buffer \<Rightarrow>
          (case JSON_parse (utf8Decode P buffer) of
             Inl err \<Rightarrow> Inl err
           | Inr v \<Rightarrow>
               (case entitiesFromJson v of
                  None \<Rightarrow> Inl Untyped
                | Some entities \<Rightarrow> Inr entities)))"

section \<open>Blob store, responses and effects\<close>

text \<open>
  The metadata record that the ingestion run writes with \<open>setJSON\<close> under \<open>meta.json\<close>.
\<close>

record metadata =
  lists :: "jsstring list"
  sdnUrl :: jsstring
  altUrl :: jsstring
  addUrl :: jsstring
  fetchedAt :: jsstring
  sdnRowCount :: nat
  altRowCount :: nat
  addRowCount :: nat
  entityCount :: nat
  sdnSha256 :: jsstring
  altSha256 :: jsstring
  addSha256 :: jsstring

text \<open>
  The store \<open>ofac\<close> under its two keys, \<open>dataset.json.gz\<close> and \<open>meta.json\<close>; \<open>None\<close> is
  the \<open>null\<close> that \<open>get\<close> returns for a key never set.
\<close>

record 'b blobStore =
  datasetBlob :: "'b option"
  metaBlob :: "metadata option"

record searchResult =
  resultScore :: "jsnum option"
  resultUid :: jsstring
  resultName :: jsstring
  resultType :: "jsstring option"
  resultPrograms :: "jsstring list"

text \<open>The objects that the handlers pass to \<open>JSON.stringify\<close> as response bodies.\<close>

datatype body =
    Failure jsstring "jsstring option"
  | SearchOk jsstring nat "searchResult list"
  | EntityOk OfacEntity
  | MetaOk metadata
  | UpdateOk metadata
  | DebugOk "row option" "row option" "row option" nat nat nat

record response =
  status :: nat
  body :: body
  cacheControl :: "string option"

text \<open>What a handler did to its collaborators, in order.\<close>

datatype effect =
    StoreGet string
  | StoreSet string
  | Fetch jsstring
  | FuseSearch jsstring jsnum

section \<open>Search handler (ofac-search.ts)\<close>

record searchCache =
  loadedAt :: int
  cachedEntities :: "OfacEntity list"

record searchRequest =
  qParam :: "jsstring option"
  limitParam :: "jsstring option"

text \<open>\<open>v || fallback\<close> on the \<open>string | null\<close> of \<open>searchParams.get\<close>\<close>

definition orElse :: "jsstring option \<Rightarrow> jsstring \<Rightarrow> jsstring" where
  "orElse v fallback = (case v of None \<Rightarrow> fallback | Some s \<Rightarrow> if s = [] then fallback else s)"

text \<open>
  \<open>loadDataset\<close>: the cached dataset while it is younger than ten minutes, else the blob
  of the store, decoded and cached. \<open>now\<close> is \<open>Date.now()\<close> at the check and \<open>later\<close> at
  the caching. \<open>readDataset\<close> is the part after the early return.
\<close>

definition readDataset ::
  "'b platform \<Rightarrow> int \<Rightarrow> 'b blobStore \<Rightarrow> (error + searchCache) \<times> effect list" where
  "readDataset P later store =
     (case datasetBlob store of
        None \<Rightarrow> (Inl (Error (js ''No dataset yet. Call /api/update or wait for schedule.'')),
                  [StoreGet ''dataset.json.gz''])
      | Some gz \<Rightarrow>
          (case decodeDataset P gz of
             Inl err \<Rightarrow> (Inl err, [StoreGet ''dataset.json.gz''])
           | Inr entities \<Rightarrow>
               (Inr \<lparr> loadedAt = later, cachedEntities = entities \<rparr>,
                [StoreGet ''dataset.json.gz''])))"

definition loadDataset ::
  "'b platform \<Rightarrow> int \<Rightarrow> int \<Rightarrow> 'b blobStore \<Rightarrow> searchCache option
     \<Rightarrow> (error + searchCache) \<times> effect list" where
  "loadDataset P now later store cached =
     (case cached of
        Some c \<Rightarrow>
          if now - loadedAt c < 10 * 60 * 1000 then (Inr c, [])
          else readDataset P later store
      | None \<Rightarrow> readDataset P later store)"

text \<open>\<open>Math.min(Number(url.searchParams.get("limit") || "20"), 50)\<close>\<close>

definition searchLimit ::
  "'b platform \<Rightarrow> jsstring option \<Rightarrow> jsnum" where
  "searchLimit P param = Math_min (toNumber P (orElse param (js ''20''))) (Num 50)"

definition toSearchResult :: "fuseHit \<Rightarrow> searchResult" where
  "toSearchResult r =
     \<lparr> resultScore = score r, resultUid = uid (item r), resultName = name (item r),
       resultType = type (item r), resultPrograms = programs (item r) \<rparr>"

text \<open>
  The handler returns what it responds with or throws, the cache of the module after the
  call, and its effects. It has no \<open>try\<close>: what \<open>loadDataset\<close> throws leaves the handler.
\<close>

definition searchHandler ::
  "'b platform \<Rightarrow> int \<Rightarrow> int \<Rightarrow> searchRequest \<Rightarrow> 'b blobStore \<Rightarrow> searchCache option
     \<Rightarrow> (error + response) \<times> searchCache option \<times> effect list" where
  "searchHandler P now later req store cached =
     (let q = trim (orElse (qParam req) []);
          limit = searchLimit P (limitParam req)
      in if q = []
         then (Inr \<lparr> status = 400, body = Failure (js ''Missing ?q='') None,
                      cacheControl = None \<rparr>, cached, [])
         else
           (case loadDataset P now later store cached of
              (Inl err, effects) \<Rightarrow> (Inl err, cached, effects)
            | (Inr c, effects) \<Rightarrow>
                let results = map toSearchResult (fuseSearch P (cachedEntities c) q limit)
                in (Inr \<lparr> status = 200, body = SearchOk q (length results) results,
                           cacheControl = Some ''public, max-age=30'' \<rparr>,
                    Some c, effects @ [FuseSearch q limit])))"

section \<open>Entity handler (ofac-entity.ts)\<close>

record entityCache =
  byIdLoadedAt :: int
  byId :: "jsstring \<rightharpoonup> OfacEntity"

text \<open>\<open>new Map(entities.map(e => [e.uid, e]))\<close>: a later entry replaces an earlier one.\<close>

definition indexById ::
  "OfacEntity list \<Rightarrow> (jsstring \<rightharpoonup> OfacEntity)" where
  "indexById entities = foldl (\<lambda>m e. m(uid e \<mapsto> e)) Map.empty entities"

definition readById ::
  "'b platform \<Rightarrow> int \<Rightarrow> 'b blobStore \<Rightarrow> (error + entityCache) \<times> effect list" where
  "readById P later store =
     (case datasetBlob store of
        None \<Rightarrow> (Inl (Error (js ''No dataset yet.'')), [StoreGet ''dataset.json.gz''])
      | Some gz \<Rightarrow>
          (case decodeDataset P gz of
             Inl err \<Rightarrow> (Inl err, [StoreGet ''dataset.json.gz''])
           | Inr entities \<Rightarrow>
               (Inr \<lparr> byIdLoadedAt = later, byId = indexById entities \<rparr>,
                [StoreGet ''dataset.json.gz''])))"

definition loadById ::
  "'b platform \<Rightarrow> int \<Rightarrow> int \<Rightarrow> 'b blobStore \<Rightarrow> entityCache option
     \<Rightarrow> (error + entityCache) \<times> effect list" where
  "loadById P now later store cached =
     (case cached of
        Some c \<Rightarrow>
          if now - byIdLoadedAt c < 10 * 60 * 1000 then (Inr c, [])
          else readById P later store
      | None \<Rightarrow> readById P later store)"

text \<open>\<open>uidParam\<close> is \<open>context.params?.uid\<close>.\<close>

definition entityHandler ::
  "'b platform \<Rightarrow> int \<Rightarrow> int \<Rightarrow> jsstring option \<Rightarrow> 'b blobStore \<Rightarrow> entityCache option
     \<Rightarrow> (error + response) \<times> entityCache option \<times> effect list" where
  "entityHandler P now later uidParam store cached =
     (case uidParam of
        None \<Rightarrow> (Inr \<lparr> status = 400, body = Failure (js ''Missing :uid'') None,
                        cacheControl = None \<rparr>, cached, [])
      | Some u \<Rightarrow>
          if u = []
          then (Inr \<lparr> status = 400, body = Failure (js ''Missing :uid'') None,
                       cacheControl = None \<rparr>, cached, [])
          else
            (case loadById P now later store cached of
               (Inl err, effects) \<Rightarrow> (Inl err, cached, effects)
             | (Inr c, effects) \<Rightarrow>
                 (case byId c u of
                    None \<Rightarrow> (Inr \<lparr> status = 404, body = Failure (js ''Not found'') (Some u),
                                    cacheControl = None \<rparr>, Some c, effects)
                  | Some entity \<Rightarrow>
                      (Inr \<lparr> status = 200, body = EntityOk entity,
                              cacheControl = Some ''public, max-age=300'' \<rparr>,
                       Some c, effects))))"

section \<open>Metadata handler\<close>

definition metaHandler :: "'b blobStore \<Rightarrow> (error + response) \<times> effect list" where
  "metaHandler store =
     (case metaBlob store of
        None \<Rightarrow>
          (Inr \<lparr> status = 404,
                  body = Failure (js ''No dataset yet. Wait for schedule or call /api/update.'') None,
                  cacheControl = None \<rparr>,
           [StoreGet ''meta.json''])
      | Some meta \<Rightarrow>
          (Inr \<lparr> status = 200, body = MetaOk meta,
                  cacheControl = Some ''public, max-age=60'' \<rparr>,
           [StoreGet ''meta.json'']))"

section \<open>Ingestion run (ofac-update.ts)\<close>

definition OFAC_EXPORT_BASE :: jsstring where
  "OFAC_EXPORT_BASE =
     js ''https://sanctionslistservice.ofac.treas.gov/api/PublicationPreview/exports''"

definition sdnCsvUrl :: jsstring where
  "sdnCsvUrl = OFAC_EXPORT_BASE @ js ''/SDN.CSV''"

definition altCsvUrl :: jsstring where
  "altCsvUrl = OFAC_EXPORT_BASE @ js ''/ALT.CSV''"

definition addCsvUrl :: jsstring where
  "addCsvUrl = OFAC_EXPORT_BASE @ js ''/ADD.CSV''"

text \<open>A number inside a template literal: its decimal digits.\<close>

fun decimal :: "nat \<Rightarrow> jsstring" where
  "decimal n =
     (if n < 10 then [0x30 + word_of_nat n]
      else decimal (n div 10) @ [0x30 + word_of_nat (n mod 10)])"

declare decimal.simps [simp del]

text \<open>
  \<open>fetchText\<close>: the body of the response, or an \<open>Error\<close> when the response is not ok. A
  body that cannot be read counts as empty, and a rejected \<open>fetch\<close> is thrown on.
\<close>

definition fetchText ::
  "'b platform \<Rightarrow> jsstring \<Rightarrow> error + jsstring" where
  "fetchText P url =
     (case fetch P url of
        Rejected reason \<Rightarrow> Inl (Error reason)
      | Responded ok code statusText text \<Rightarrow>
          let body = (case text of None \<Rightarrow> [] | Some b \<Rightarrow> b)
          in if \<not> ok
             then Inl (Error (js ''OFAC fetch failed '' @ decimal code @ js '' '' @ statusText
                              @ js '' :: '' @ url @ [0x0A] @ take 500 body))
             else Inr body)"

text \<open>\<open>parseCSV\<close> of ofac-parser.ts: \<open>parse\<close> with \<open>normalizeHeader\<close> for the columns.\<close>

definition parseCSV ::
  "'b platform \<Rightarrow> jsstring \<Rightarrow> error + row list" where
  "parseCSV P csvText = csvParse P normalizeHeader csvText"

text \<open>\<open>rows[0] || null\<close>\<close>

definition sampleRow :: "row list \<Rightarrow> row option" where
  "sampleRow rows = (case rows of [] \<Rightarrow> None | r # _ \<Rightarrow> Some r)"

text \<open>\<open>String(err?.message || err)\<close>\<close>

fun errorText :: "error \<Rightarrow> jsstring" where
  "errorText (Error message) = (if message = [] then js ''Error'' else message)"
| "errorText Untyped = js ''Error''"

text \<open>
  The \<open>try\<close> block of the handler: the response and the store after it, or what was
  thrown. \<open>stamp\<close> is \<open>new Date().toISOString()\<close> and \<open>debug\<close> the query parameter of that
  name. The store is taken to accept every write.
\<close>

definition updateRun ::
  "'b platform \<Rightarrow> jsstring \<Rightarrow> jsstring option \<Rightarrow> 'b blobStore \<Rightarrow> error + response \<times> 'b blobStore" where
  "updateRun P stamp debug store =
     (case fetchText P sdnCsvUrl of Inl err \<Rightarrow> Inl err | Inr sdnCsv \<Rightarrow>
      case fetchText P altCsvUrl of Inl err \<Rightarrow> Inl err | Inr altCsv \<Rightarrow>
      case fetchText P addCsvUrl of Inl err \<Rightarrow> Inl err | Inr addCsv \<Rightarrow>
      case parseCSV P sdnCsv of Inl err \<Rightarrow> Inl err | Inr sdnRows \<Rightarrow>
      case parseCSV P altCsv of Inl err \<Rightarrow> Inl err | Inr altRows \<Rightarrow>
      case parseCSV P addCsv of Inl err \<Rightarrow> Inl err | Inr addRows \<Rightarrow>
        if debug = Some (js ''1'')
        then Inr (\<lparr> status = 200,
                    body = DebugOk (sampleRow sdnRows) (sampleRow altRows) (sampleRow addRows)
                             (length sdnRows) (length altRows) (length addRows),
                    cacheControl = None \<rparr>, store)
        else
          let entities = consolidateAddData
                           (consolidateAltData (extractEntities sdnRows) altRows) addRows;
              payloadGz = encodeDataset P entities;
              meta = \<lparr> lists = [js ''SDN'', js ''ALT'', js ''ADD''],
                       sdnUrl = sdnCsvUrl, altUrl = altCsvUrl, addUrl = addCsvUrl,
                       fetchedAt = stamp,
                       sdnRowCount = length sdnRows, altRowCount = length altRows,
                       addRowCount = length addRows, entityCount = length entities,
                       sdnSha256 = sha256 P sdnCsv, altSha256 = sha256 P altCsv,
                       addSha256 = sha256 P addCsv \<rparr>
          in Inr (\<lparr> status = 200, body = UpdateOk meta, cacheControl = None \<rparr>,
                  store\<lparr> datasetBlob := Some payloadGz, metaBlob := Some meta \<rparr>))"

text \<open>The handler with its \<open>catch\<close>: an exception becomes the response 500.\<close>

definition updateHandler ::
  "'b platform \<Rightarrow> jsstring \<Rightarrow> jsstring option \<Rightarrow> 'b blobStore \<Rightarrow> response \<times> 'b blobStore" where
  "updateHandler P stamp debug store =
     (case updateRun P stamp debug store of
        Inl err \<Rightarrow> (\<lparr> status = 500, body = Failure (errorText err) None,
                        cacheControl = None \<rparr>, store)
      | Inr result \<Rightarrow> result)"

section \<open>Notions used in the statements\<close>

text \<open>Some key of the list has a value in the row that is not blank.\<close>

definition resolvesNonBlank :: "row \<Rightarrow> jsstring list \<Rightarrow> bool" where
  "resolvesNonBlank row keys =
     list_ex (\<lambda>k. case row k of None \<Rightarrow> False | Some v \<Rightarrow> trim v \<noteq> []) keys"

text \<open>
  The primary rows for which an entity is due: the uid keys and the name keys both
  resolve to a non-blank value.
\<close>

definition accepted :: "row \<Rightarrow> bool" where
  "accepted row \<longleftrightarrow> resolvesNonBlank row UID_KEYS \<and> resolvesNonBlank row NAME_KEYS"

text \<open>The position of the last entity with the uid \<open>u\<close>.\<close>

fun lastIndex :: "jsstring \<Rightarrow> OfacEntity list \<Rightarrow> nat option" where
  "lastIndex u [] = None"
| "lastIndex u (e # es) =
     (case lastIndex u es of Some i \<Rightarrow> Some (Suc i)
      | None \<Rightarrow> if uid e = u then Some 0 else None)"

text \<open>
  The entity at position \<open>i\<close> is the one matched by the uid \<open>u\<close>: it has that uid and no
  later entity has it.
\<close>

definition matchedAt ::
  "OfacEntity list \<Rightarrow> jsstring \<Rightarrow> nat \<Rightarrow> bool" where
  "matchedAt es u i \<longleftrightarrow>
     i < length es \<and> uid (es ! i) = u \<and> u \<notin> set (map uid (drop (Suc i) es))"

text \<open>The uid and the name of an alias row with a valid payload.\<close>

definition aliasOf :: "row \<Rightarrow> (jsstring \<times> jsstring) option" where
  "aliasOf row =
     (case (firstDefined row UID_KEYS, firstDefined row ALT_NAME_KEYS) of
        (Some u, Some a) \<Rightarrow> Some (u, a)
      | _ \<Rightarrow> None)"

text \<open>
  The uid and the address record of an address row with a valid payload: at least one of
  address, city and country resolves.
\<close>

definition addressOf :: "row \<Rightarrow> (jsstring \<times> addressRecord) option" where
  "addressOf row =
     (case firstDefined row UID_KEYS of
        Some u \<Rightarrow>
          let a = firstDefined row ADDRESS_KEYS;
              c = firstDefined row CITY_KEYS;
              k = firstDefined row COUNTRY_KEYS
          in if a = None \<and> c = None \<and> k = None then None
             else Some (u, \<lparr> address = a, city = c, country = k \<rparr>)
      | None \<Rightarrow> None)"

text \<open>The payloads whose uid the lookup \<open>m\<close> sends to position \<open>i\<close>, in order.\<close>

definition joined ::
  "(jsstring \<rightharpoonup> nat) \<Rightarrow> nat \<Rightarrow> (jsstring \<times> 'a) list \<Rightarrow> 'a list" where
  "joined m i payloads = map snd (filter (\<lambda>(u, a). m u = Some i) payloads)"

text \<open>The row resolves to no uid, or to a uid that no entity has.\<close>

definition uidUnmatched :: "OfacEntity list \<Rightarrow> row \<Rightarrow> bool" where
  "uidUnmatched es row =
     (case firstDefined row UID_KEYS of None \<Rightarrow> True | Some u \<Rightarrow> u \<notin> set (map uid es))"

text \<open>
  The alias names, and the address records, that the rows give to the entity at position
  \<open>i\<close>, in row order.
\<close>

definition aliasesAt ::
  "OfacEntity list \<Rightarrow> nat \<Rightarrow> row list \<Rightarrow> jsstring list" where
  "aliasesAt es i rows =
     map snd (filter (\<lambda>(u, a). matchedAt es u i) (List.map_filter aliasOf rows))"

definition addressesAt ::
  "OfacEntity list \<Rightarrow> nat \<Rightarrow> row list \<Rightarrow> addressRecord list" where
  "addressesAt es i rows =
     map snd (filter (\<lambda>(u, a). matchedAt es u i) (List.map_filter addressOf rows))"

text \<open>The payloads of the uid \<open>u\<close>, in order.\<close>

definition withUid ::
  "jsstring \<Rightarrow> (jsstring \<times> 'a) list \<Rightarrow> 'a list" where
  "withUid u payloads = map snd (filter (\<lambda>(v, a). v = u) payloads)"

text \<open>A search request has no usable query: \<open>q\<close> is absent, empty or only whitespace.\<close>

definition blankQuery :: "searchRequest \<Rightarrow> bool" where
  "blankQuery req = (case qParam req of None \<Rightarrow> True | Some q \<Rightarrow> trim q = [])"

text \<open>The \<open>count\<close> of a search response.\<close>

definition resultCount :: "error + response \<Rightarrow> nat option" where
  "resultCount outcome =
     (case outcome of
        Inr r \<Rightarrow> (case body r of SearchOk q n results \<Rightarrow> Some n | _ \<Rightarrow> None)
      | Inl err \<Rightarrow> None)"

text \<open>The response of the entity handler for a uid that the dataset does not have.\<close>

definition notFound :: "jsstring \<Rightarrow> response" where
  "notFound u = \<lparr> status = 404, body = Failure (js ''Not found'') (Some u), cacheControl = None \<rparr>"

text \<open>The response of the metadata handler while the store has no metadata.\<close>

definition noMetadataYet :: response where
  "noMetadataYet =
     \<lparr> status = 404,
       body = Failure (js ''No dataset yet. Wait for schedule or call /api/update.'') None,
       cacheControl = None \<rparr>"

text \<open>A value that holds no number, and the nested calls that parsing its text takes.\<close>

fun numberFree :: "json \<Rightarrow> bool"
  and numberFreeElements :: "json list \<Rightarrow> bool"
  and numberFreeMembers :: "(jsstring \<times> json) list \<Rightarrow> bool" where
  "numberFree JNull = True"
| "numberFree (JBool b) = True"
| "numberFree (JNumber literal) = False"
| "numberFree (JString s) = True"
| "numberFree (JArray vs) = numberFreeElements vs"
| "numberFree (JObject ms) = numberFreeMembers ms"
| "numberFreeElements [] = True"
| "numberFreeElements (v # vs) = (numberFree v \<and> numberFreeElements vs)"
| "numberFreeMembers [] = True"
| "numberFreeMembers ((k, v) # ms) = (numberFree v \<and> numberFreeMembers ms)"

fun need :: "json \<Rightarrow> nat"
  and needElements :: "json list \<Rightarrow> nat"
  and needMembers :: "(jsstring \<times> json) list \<Rightarrow> nat" where
  "need JNull = 1"
| "need (JBool b) = 1"
| "need (JNumber literal) = 1"
| "need (JString s) = 1"
| "need (JArray vs) = Suc (needElements vs)"
| "need (JObject ms) = Suc (needMembers ms)"
| "needElements [] = 0"
| "needElements (v # vs) = Suc (max (need v) (needElements vs))"
| "needMembers [] = 0"
| "needMembers ((k, v) # ms) = Suc (max (need v) (needMembers ms))"

text \<open>The text begins with a unit that is no space and closes no array and no object.\<close>

definition opens :: "jsstring \<Rightarrow> bool" where
  "opens s = (case s of [] \<Rightarrow> False | c # cs \<Rightarrow> \<not> isJsonSpace c \<and> c \<noteq> 0x5D \<and> c \<noteq> 0x7D)"

text \<open>
  Well-formed UTF-16: every surrogate is half of a pair. \<open>plain\<close> units are those that
  are no surrogates.
\<close>

definition plain :: "jschar \<Rightarrow> bool" where
  "plain c \<longleftrightarrow> \<not> isLeadSurrogate c \<and> \<not> isTrailSurrogate c"

fun wellFormed :: "jsstring \<Rightarrow> bool" where
  "wellFormed [] = True"
| "wellFormed [c] = (\<not> isLeadSurrogate c \<and> \<not> isTrailSurrogate c)"
| "wellFormed (c # d # cs) =
     (if isLeadSurrogate c then isTrailSurrogate d \<and> wellFormed cs
      else \<not> isTrailSurrogate c \<and> wellFormed (d # cs))"

text \<open>
  The buffers of the platform lose nothing: a well-formed text decodes back from its
  UTF-8 buffer, and a compressed buffer inflates back to the buffer.
\<close>

definition losslessBuffers :: "'b platform \<Rightarrow> bool" where
  "losslessBuffers P \<longleftrightarrow>
     (\<forall>t. wellFormed t \<longrightarrow> utf8Decode P (utf8Encode P t) = t) \<and>
     (\<forall>b. gunzipSync P (gzipSync P b) = Inr b)"

text \<open>
  The search library honours a limit that is a number from 0 on: it returns no more
  results than the limit.
\<close>

definition honoursLimit :: "'b platform \<Rightarrow> bool" where
  "honoursLimit P \<longleftrightarrow>
     (\<forall>entities q n. 0 \<le> n \<longrightarrow> length (fuseSearch P entities q (Num n)) \<le> nat \<lfloor>n\<rfloor>)"

text \<open>The run has reached the state \<open>PERSISTED\<close>: both blobs of this run are in the store.\<close>

definition persisted :: "response \<times> 'b blobStore \<Rightarrow> bool" where
  "persisted outcome \<longleftrightarrow>
     status (fst outcome) = 200 \<and>
     (case body (fst outcome) of
        UpdateOk meta \<Rightarrow> metaBlob (snd outcome) = Some meta \<and> datasetBlob (snd outcome) \<noteq> None
      | _ \<Rightarrow> False)"

section \<open>Example data\<close>

text \<open>The scenario of the specification and of the parser's tests, and a primary table
  with a repeated identifier.\<close>

definition johnRow :: row where
  "johnRow = [js ''ent_num'' \<mapsto> js ''123'', js ''sdn_name'' \<mapsto> js ''John Doe'']"

definition john :: OfacEntity where
  "john = \<lparr> uid = js ''123'', name = js ''John Doe'', type = None, programs = [],
            remarks = None, aka = [], addresses = [] \<rparr>"

definition johnAlias :: row where
  "johnAlias = [js ''ent_num'' \<mapsto> js ''123'', js ''alt_name'' \<mapsto> js ''Johnny Doe'']"

definition johnAddress :: row where
  "johnAddress = [js ''ent_num'' \<mapsto> js ''123'', js ''address'' \<mapsto> js ''123 Main St'',
                  js ''city'' \<mapsto> js ''NY'']"

definition strayAlias :: row where
  "strayAlias = [js ''ent_num'' \<mapsto> js ''999'', js ''alt_name'' \<mapsto> js ''Nobody'']"

definition namelessRow :: row where
  "namelessRow = [js ''ent_num'' \<mapsto> js ''456'', js ''sdn_type'' \<mapsto> js ''individual'']"

definition twinRow :: row where
  "twinRow = [js ''ent_num'' \<mapsto> js ''123'', js ''sdn_name'' \<mapsto> js ''J. Doe'']"

definition twin :: OfacEntity where
  "twin = \<lparr> uid = js ''123'', name = js ''J. Doe'', type = None, programs = [],
            remarks = None, aka = [], addresses = [] \<rparr>"

text \<open>An entity with absent optional fields, an empty string and an address of one field.\<close>

definition sparse :: OfacEntity where
  "sparse = \<lparr> uid = js ''999'', name = js ''Complex Entity'', type = Some [], programs = [],
              remarks = None, aka = [js ''Alias 1''],
              addresses = [\<lparr> address = None, city = Some (js ''Chicago''), country = None \<rparr>] \<rparr>"

section \<open>An example platform\<close>

text \<open>
  Stand-ins for the parameters, to run the handlers on examples. \<open>decimalNumber\<close> reads
  what \<open>Number\<close> reads on a blank string and on an optionally signed run of decimal
  digits, and takes any other string for not a number.
\<close>

definition digitsValue :: "jsstring \<Rightarrow> nat" where
  "digitsValue ds = foldl (\<lambda>n d. 10 * n + unat (d - 0x30)) 0 ds"

definition unsignedDecimal :: "jsstring \<Rightarrow> real option" where
  "unsignedDecimal ds =
     (if ds \<noteq> [] \<and> list_all isDigit ds then Some (real (digitsValue ds)) else None)"

definition decimalNumber :: "jsstring \<Rightarrow> jsnum" where
  "decimalNumber s =
     (case trim s of
        [] \<Rightarrow> Num 0
      | c # cs \<Rightarrow>
          if c = 0x2D then (case unsignedDecimal cs of Some x \<Rightarrow> Num (- x) | None \<Rightarrow> NaN)
          else if c = 0x2B then (case unsignedDecimal cs of Some x \<Rightarrow> Num x | None \<Rightarrow> NaN)
          else (case unsignedDecimal (c # cs) of Some x \<Rightarrow> Num x | None \<Rightarrow> NaN))"

text \<open>
  \<open>everyEntity\<close> stands in for \<open>fuse.search\<close>: each indexed entity is a hit, and the hits
  are cut to the limit when the limit is a number greater than -1, which is what Fuse.js
  does with its \<open>limit\<close> option.
\<close>

definition everyEntity ::
  "OfacEntity list \<Rightarrow> jsstring \<Rightarrow> jsnum \<Rightarrow> fuseHit list" where
  "everyEntity entities q limit =
     (let hits = map (\<lambda>e. \<lparr> item = e, score = Some (Num 0) \<rparr>) entities
      in case limit of
           Num n \<Rightarrow> if - 1 < n then take (nat \<lfloor>n\<rfloor>) hits else hits
         | _ \<Rightarrow> hits)"

text \<open>
  A network on which the primary table is served and the alias table is missing.
\<close>

definition aliasTableMissing :: "jsstring \<Rightarrow> fetched" where
  "aliasTableMissing url =
     (if url = altCsvUrl then Responded False 404 (js ''Not Found'') (Some (js ''gone''))
      else Responded True 200 (js ''OK'') (Some (js ''ent_num,sdn_name'')))"

text \<open>
  The example platform keeps a buffer as the text itself, so that its buffer functions
  are identities; it parses every table to no rows and digests a text to its length.
\<close>

definition examplePlatform :: "jsstring platform" where
  "examplePlatform =
     \<lparr> toNumber = decimalNumber, fuseSearch = everyEntity,
       utf8Encode = (\<lambda>t. t), utf8Decode = (\<lambda>b. b),
       gzipSync = (\<lambda>b. b), gunzipSync = Inr,
       sha256 = (\<lambda>s. decimal (length s)),
       csvParse = (\<lambda>columns csvText. Inr []),
       fetch = aliasTableMissing \<rparr>"

definition emptyStore :: "jsstring blobStore" where
  "emptyStore = \<lparr> datasetBlob = None, metaBlob = None \<rparr>"

definition johnStore :: "jsstring blobStore" where
  "johnStore =
     \<lparr> datasetBlob = Some (JSON_stringify (entitiesToJson [john])), metaBlob = None \<rparr>"

section \<open>Properties\<close>

subsection \<open>Field resolver and entity extraction\<close>

lemma trim_Nil [simp]: "trim [] = []"
  by (simp add: trim_def)

lemma firstDefined_nonblank: "firstDefined row keys = Some v \<Longrightarrow> trim v \<noteq> []"
  by (induction keys) (auto split: option.splits if_splits)

lemma firstDefined_truthy: "truthy (firstDefined row keys) \<longleftrightarrow> firstDefined row keys \<noteq> None"
  using firstDefined_nonblank [of row keys]
  by (cases "firstDefined row keys") (auto simp: truthy_def)

lemma firstDefined_resolves:
  "firstDefined row keys \<noteq> None \<longleftrightarrow> resolvesNonBlank row keys"
  by (induction keys) (auto simp: resolvesNonBlank_def split: option.splits)

lemma firstDefined_nonempty: "firstDefined row keys = Some v \<Longrightarrow> v \<noteq> []"
  using firstDefined_nonblank [of row keys v] by auto

lemma extractRow_None: "extractRow row = None \<longleftrightarrow> \<not> accepted row"
  by (auto simp: extractRow_def accepted_def Let_def truthy_def
        firstDefined_resolves [symmetric] split: option.splits dest: firstDefined_nonempty)

lemma extractRow_Some:
  "extractRow row = Some e \<Longrightarrow>
     firstDefined row UID_KEYS = Some (uid e) \<and> firstDefined row NAME_KEYS = Some (name e)
     \<and> aka e = [] \<and> addresses e = []"
  by (auto simp: extractRow_def Let_def split: option.splits if_splits)

lemma extractEntities_Nil [simp]: "extractEntities [] = []"
  by (simp add: extractEntities_def map_filter_simps)

lemma extractEntities_Cons:
  "extractEntities (r # rows) =
     (case extractRow r of None \<Rightarrow> extractEntities rows | Some e \<Rightarrow> e # extractEntities rows)"
  by (cases "extractRow r") (simp_all add: extractEntities_def map_filter_simps)

lemma extract_uids:
  "map (\<lambda>e. Some (uid e)) (extractEntities rows) =
     map (\<lambda>r. firstDefined r UID_KEYS) (filter accepted rows)"
proof (induction rows)
  case Nil
  show ?case by simp
next
  case (Cons r rows)
  show ?case
  proof (cases "extractRow r")
    case None
    then have "\<not> accepted r" using extractRow_None [of r] by simp
    then show ?thesis using Cons None by (simp add: extractEntities_Cons)
  next
    case (Some e)
    then have "accepted r" using extractRow_None [of r] by simp
    then show ?thesis using Cons Some extractRow_Some [OF Some]
      by (simp add: extractEntities_Cons)
  qed
qed

subsection \<open>The uid lookup of the consolidators\<close>

lemma buildEntityMap_lastIndex:
  "buildEntityMap k es m u = (case lastIndex u es of Some i \<Rightarrow> Some (k + i) | None \<Rightarrow> m u)"
  by (induction es arbitrary: k m) (auto split: option.splits)

lemma entityMap_lastIndex: "entityMap es u = lastIndex u es"
  by (simp add: entityMap_def buildEntityMap_lastIndex split: option.splits)

lemma lastIndex_None: "lastIndex u es = None \<longleftrightarrow> u \<notin> set (map uid es)"
  by (induction es) (auto split: option.splits)

lemma lastIndex_matchedAt: "lastIndex u es = Some i \<longleftrightarrow> matchedAt es u i"
proof (induction es arbitrary: i)
  case Nil
  show ?case by (simp add: matchedAt_def)
next
  case (Cons e es)
  show ?case
  proof (cases "lastIndex u es")
    case None
    then have notin: "u \<notin> set (map uid es)" by (simp add: lastIndex_None)
    show ?thesis
    proof (cases i)
      case 0
      then show ?thesis using None notin by (auto simp: matchedAt_def)
    next
      case (Suc j)
      have "\<not> matchedAt es u j" using Cons [of j] None by simp
      then show ?thesis using None Suc by (auto simp: matchedAt_def)
    qed
  next
    case (Some k)
    then have mk: "matchedAt es u k" using Cons [of k] by simp
    then have inset: "u \<in> set (map uid es)"
      by (auto simp: matchedAt_def)
    show ?thesis
    proof (cases i)
      case 0
      then show ?thesis using Some inset by (auto simp: matchedAt_def)
    next
      case (Suc j)
      then show ?thesis using Some Cons [of j] by (auto simp: matchedAt_def)
    qed
  qed
qed

lemma entityMap_matchedAt: "entityMap es u = Some i \<longleftrightarrow> matchedAt es u i"
  by (simp add: entityMap_lastIndex lastIndex_matchedAt)

lemma entityMap_None: "entityMap es u = None \<longleftrightarrow> u \<notin> set (map uid es)"
  by (simp add: entityMap_lastIndex lastIndex_None)

subsection \<open>The consolidators as joins\<close>

lemma joined_Nil [simp]: "joined m i [] = []"
  by (simp add: joined_def)

lemma joined_Cons:
  "joined m i ((u, a) # ps) = (if m u = Some i then a # joined m i ps else joined m i ps)"
  by (simp add: joined_def)

lemma orUndefined_firstDefined [simp]:
  "orUndefined (firstDefined row keys) = firstDefined row keys"
  by (simp add: orUndefined_def firstDefined_truthy)

lemma altStep_length [simp]: "length (altStep m es row) = length es"
  by (simp add: altStep_def Let_def split: option.splits)

lemma addStep_length [simp]: "length (addStep m es row) = length es"
  by (simp add: addStep_def Let_def split: option.splits)

lemma altStep_nth:
  "i < length es \<Longrightarrow>
     altStep m es row ! i =
       (case aliasOf row of
          Some (u, a) \<Rightarrow> if m u = Some i then pushAka a (es ! i) else es ! i
        | None \<Rightarrow> es ! i)"
  by (auto simp: altStep_def aliasOf_def Let_def truthy_def nth_list_update
        split: option.splits dest: firstDefined_nonempty)

lemma addStep_nth:
  "i < length es \<Longrightarrow>
     addStep m es row ! i =
       (case addressOf row of
          Some (u, a) \<Rightarrow> if m u = Some i then pushAddress a (es ! i) else es ! i
        | None \<Rightarrow> es ! i)"
  by (auto simp: addStep_def addressOf_def Let_def truthy_def nth_list_update
        split: option.splits dest: firstDefined_nonempty)

lemma foldl_altStep_length [simp]: "length (foldl (altStep m) es rows) = length es"
  by (induction rows arbitrary: es) auto

lemma foldl_addStep_length [simp]: "length (foldl (addStep m) es rows) = length es"
  by (induction rows arbitrary: es) auto

lemma map_filter_Cons:
  "List.map_filter f (x # xs) =
     (case f x of None \<Rightarrow> List.map_filter f xs | Some y \<Rightarrow> y # List.map_filter f xs)"
  by (cases "f x") (simp_all add: map_filter_simps)

lemma foldl_altStep_nth:
  "i < length es \<Longrightarrow>
     foldl (altStep m) es rows ! i =
       (es ! i)\<lparr> aka := aka (es ! i) @ joined m i (List.map_filter aliasOf rows) \<rparr>"
proof (induction rows arbitrary: es)
  case Nil
  show ?case by (simp add: map_filter_simps)
next
  case (Cons r rows)
  have len: "i < length (altStep m es r)" using Cons.prems by simp
  show ?case
    using Cons.IH [OF len] Cons.prems
    by (auto simp: altStep_nth map_filter_Cons joined_Cons pushAka_def split: option.splits)
qed

lemma foldl_addStep_nth:
  "i < length es \<Longrightarrow>
     foldl (addStep m) es rows ! i =
       (es ! i)\<lparr> addresses := addresses (es ! i) @ joined m i (List.map_filter addressOf rows) \<rparr>"
proof (induction rows arbitrary: es)
  case Nil
  show ?case by (simp add: map_filter_simps)
next
  case (Cons r rows)
  have len: "i < length (addStep m es r)" using Cons.prems by simp
  show ?case
    using Cons.IH [OF len] Cons.prems
    by (auto simp: addStep_nth map_filter_Cons joined_Cons pushAddress_def split: option.splits)
qed

lemma consolidateAltData_nth:
  "i < length es \<Longrightarrow>
     consolidateAltData es rows ! i =
       (es ! i)\<lparr> aka := aka (es ! i) @ joined (entityMap es) i (List.map_filter aliasOf rows) \<rparr>"
  by (simp add: consolidateAltData_def foldl_altStep_nth)

lemma consolidateAddData_nth:
  "i < length es \<Longrightarrow>
     consolidateAddData es rows ! i =
       (es ! i)\<lparr> addresses := addresses (es ! i)
          @ joined (entityMap es) i (List.map_filter addressOf rows) \<rparr>"
  by (simp add: consolidateAddData_def foldl_addStep_nth)

lemma consolidateAltData_length [simp]: "length (consolidateAltData es rows) = length es"
  by (simp add: consolidateAltData_def)

lemma consolidateAddData_length [simp]: "length (consolidateAddData es rows) = length es"
  by (simp add: consolidateAddData_def)

lemma consolidateAltData_uids [simp]: "map uid (consolidateAltData es rows) = map uid es"
  by (rule nth_equalityI) (simp_all add: consolidateAltData_nth)

lemma consolidateAddData_uids [simp]: "map uid (consolidateAddData es rows) = map uid es"
  by (rule nth_equalityI) (simp_all add: consolidateAddData_nth)

lemma joined_unmatched:
  "\<forall>(u, a) \<in> set ps. m u = None \<Longrightarrow> joined m i ps = []"
  by (induction ps) (auto simp: joined_Cons)

lemma aliasOf_unmatched:
  "list_all (uidUnmatched es) rows \<Longrightarrow>
     \<forall>(u, a) \<in> set (List.map_filter aliasOf rows). entityMap es u = None"
  by (induction rows)
     (auto simp: map_filter_Cons map_filter_simps aliasOf_def uidUnmatched_def entityMap_None
           split: option.splits)

lemma addressOf_unmatched:
  "list_all (uidUnmatched es) rows \<Longrightarrow>
     \<forall>(u, a) \<in> set (List.map_filter addressOf rows). entityMap es u = None"
  by (induction rows)
     (auto simp: map_filter_Cons map_filter_simps addressOf_def uidUnmatched_def entityMap_None Let_def
           split: option.splits if_splits)

lemma consolidate_unmatched:
  assumes "list_all (uidUnmatched es) rows"
  shows "consolidateAltData es rows = es" and "consolidateAddData es rows = es"
proof -
  show "consolidateAltData es rows = es"
    by (rule nth_equalityI)
       (simp_all add: consolidateAltData_nth joined_unmatched [OF aliasOf_unmatched [OF assms]])
  show "consolidateAddData es rows = es"
    by (rule nth_equalityI)
       (simp_all add: consolidateAddData_nth joined_unmatched [OF addressOf_unmatched [OF assms]])
qed

lemma joined_entityMap_alias: "joined (entityMap es) i (List.map_filter aliasOf rows) = aliasesAt es i rows"
  by (simp add: joined_def aliasesAt_def entityMap_matchedAt)

lemma joined_entityMap_address: "joined (entityMap es) i (List.map_filter addressOf rows) = addressesAt es i rows"
  by (simp add: joined_def addressesAt_def entityMap_matchedAt)

subsection \<open>Header normalizer\<close>

lemma isWhiteSpace_BOM [simp]: "isWhiteSpace BOM"
  by (simp add: isWhiteSpace_def BOM_def)

lemma trim_stripLeadingBOM: "trim (stripLeadingBOM s) = trim s"
  by (cases s) (simp_all add: stripLeadingBOM_def trim_def)

lemma set_trim_subset: "set (trim s) \<subseteq> set s"
  by (auto simp: trim_def dest!: set_dropWhileD)

lemma BOM_trim: "BOM \<notin> set (stripLeadingBOM s) \<Longrightarrow> BOM \<notin> set (trim s)"
  using set_trim_subset [of "stripLeadingBOM s"] by (auto simp: trim_stripLeadingBOM)

lemma lowerUnit_BOM: "BOM \<in> set (lowerUnit c) \<Longrightarrow> c = BOM"
  by (auto simp: lowerUnit_def BOM_def split: if_splits)

lemma lowerUnit_hyphen: "x \<in> set (lowerUnit c) \<Longrightarrow> isHyphen x \<Longrightarrow> isHyphen c"
  by (auto simp: lowerUnit_def isHyphen_def split: if_splits)

lemma toLowerCase_BOM: "BOM \<notin> set s \<Longrightarrow> BOM \<notin> set (toLowerCase s)"
  by (auto simp: toLowerCase_def dest: lowerUnit_BOM)

lemma toLowerCase_hyphen:
  "\<forall>c \<in> set s. \<not> isHyphen c \<Longrightarrow> \<forall>c \<in> set (toLowerCase s). \<not> isHyphen c"
  by (auto simp: toLowerCase_def dest: lowerUnit_hyphen)

lemma deleteAll_none: "\<forall>c \<in> set s. \<not> p c \<Longrightarrow> deleteAll p s = s"
  by (simp add: deleteAll_def)

lemma deleteAll_cong: "\<forall>c \<in> set s. p c = q c \<Longrightarrow> deleteAll p s = deleteAll q s"
  by (induction s) (auto simp: deleteAll_def)

lemma set_deleteAll_subset: "set (deleteAll p s) \<subseteq> set s"
  by (auto simp: deleteAll_def)

lemma collapseRuns_cong:
  "\<forall>c \<in> set s. p c = q c \<Longrightarrow> collapseRuns p s = collapseRuns q s"
proof (induction p s rule: collapseRuns.induct)
  case (1 p)
  show ?case by simp
next
  case (2 p c cs)
  have eq: "dropWhile p cs = dropWhile q cs"
    using "2.prems" by (intro dropWhile_cong) auto
  have sub: "set (dropWhile q cs) \<subseteq> set cs"
    by (auto dest: set_dropWhileD)
  show ?case
  proof (cases "p c")
    case True
    then have "q c" using "2.prems" by simp
    moreover have "collapseRuns p (dropWhile p cs) = collapseRuns q (dropWhile p cs)"
      using "2.IH"(1) [OF True] "2.prems" sub eq by auto
    ultimately show ?thesis using True eq by simp
  next
    case False
    then have "\<not> q c" using "2.prems" by simp
    moreover have "collapseRuns p cs = collapseRuns q cs"
      using "2.IH"(2) [OF False] "2.prems" by auto
    ultimately show ?thesis using False by simp
  qed
qed

lemma normalizeHeader_spec:
  assumes "BOM \<notin> set (stripLeadingBOM header)"
  shows "normalizeHeader header = spec_normalizeHeader header"
proof -
  have "BOM \<notin> set (toLowerCase (trim header))"
    using assms by (intro toLowerCase_BOM BOM_trim)
  then have "deleteAll (\<lambda>c. c = BOM) (toLowerCase (trim header)) = toLowerCase (trim header)"
    by (intro deleteAll_none) auto
  moreover have "(\<lambda>c. isHyphen c \<or> isWhiteSpace c) = (\<lambda>c. isWhiteSpace c \<or> isHyphen c)"
    by auto
  ultimately show ?thesis
    by (simp add: normalizeHeader_def spec_normalizeHeader_def trim_stripLeadingBOM)
qed

lemma normalizeHeader_update_spec:
  assumes "BOM \<notin> set (stripLeadingBOM header)" and "\<forall>c \<in> set header. \<not> isHyphen c"
  shows "normalizeHeader_update header = spec_normalizeHeader header"
proof -
  let ?l = "toLowerCase (trim header)"
  have "BOM \<notin> set ?l"
    using assms(1) by (intro toLowerCase_BOM BOM_trim)
  then have bom: "deleteAll (\<lambda>c. c = BOM) ?l = ?l"
    by (intro deleteAll_none) auto
  have nohy: "\<forall>c \<in> set ?l. \<not> isHyphen c"
    using assms(2) set_trim_subset [of header] by (intro toLowerCase_hyphen) auto
  have rm: "deleteAll (\<lambda>c. \<not> (isWordChar c \<or> isWhiteSpace c)) ?l =
            deleteAll (\<lambda>c. \<not> (isWordChar c \<or> isWhiteSpace c \<or> isHyphen c)) ?l"
    using nohy by (intro deleteAll_cong) auto
  have "\<forall>c \<in> set (deleteAll (\<lambda>c. \<not> (isWordChar c \<or> isWhiteSpace c \<or> isHyphen c)) ?l).
          isWhiteSpace c = (isWhiteSpace c \<or> isHyphen c)"
    using nohy set_deleteAll_subset by auto
  then have "collapseRuns isWhiteSpace
           (deleteAll (\<lambda>c. \<not> (isWordChar c \<or> isWhiteSpace c \<or> isHyphen c)) ?l) =
         collapseRuns (\<lambda>c. isWhiteSpace c \<or> isHyphen c)
           (deleteAll (\<lambda>c. \<not> (isWordChar c \<or> isWhiteSpace c \<or> isHyphen c)) ?l)"
    by (rule collapseRuns_cong)
  then show ?thesis
    unfolding normalizeHeader_update_def spec_normalizeHeader_def trim_stripLeadingBOM bom rm .
qed

text \<open>
  Deleting the byte-order marks commutes with \<open>trim\<close> and with \<open>toLowerCase\<close>, since the
  mark is a space for \<open>trim\<close> and is its own lower case.
\<close>

lemma filter_dropWhile_absorb:
  "(\<And>x. \<not> q x \<Longrightarrow> p x) \<Longrightarrow> filter q (dropWhile p xs) = dropWhile p (filter q xs)"
  by (induction xs) auto

lemma deleteAll_BOM_trim:
  "deleteAll (\<lambda>c. c = BOM) (trim s) = trim (deleteAll (\<lambda>c. c = BOM) s)"
proof -
  let ?q = "\<lambda>c. \<not> c = BOM"
  have absorb: "filter ?q (dropWhile isWhiteSpace xs) = dropWhile isWhiteSpace (filter ?q xs)"
    for xs
    by (rule filter_dropWhile_absorb) simp
  have "filter ?q (trim s) = trim (filter ?q s)"
    by (simp only: trim_def absorb rev_filter [symmetric])
  then show ?thesis
    by (simp add: deleteAll_def)
qed

lemma lowerUnit_of_BOM: "lowerUnit BOM = [BOM]"
  by (simp add: lowerUnit_def BOM_def)

lemma deleteAll_BOM_lowerUnit:
  "c \<noteq> BOM \<Longrightarrow> deleteAll (\<lambda>c. c = BOM) (lowerUnit c) = lowerUnit c"
  by (rule deleteAll_none) (auto dest: lowerUnit_BOM)

lemma deleteAll_BOM_toLowerCase:
  "deleteAll (\<lambda>c. c = BOM) (toLowerCase s) = toLowerCase (deleteAll (\<lambda>c. c = BOM) s)"
proof (induction s)
  case Nil
  show ?case by (simp add: deleteAll_def toLowerCase_def)
next
  case (Cons c cs)
  have split: "deleteAll (\<lambda>c. c = BOM) (toLowerCase (c # cs)) =
          deleteAll (\<lambda>c. c = BOM) (lowerUnit c) @ deleteAll (\<lambda>c. c = BOM) (toLowerCase cs)"
    by (simp add: deleteAll_def toLowerCase_def)
  show ?case
  proof (cases "c = BOM")
    case True
    then show ?thesis
      using Cons split by (simp add: lowerUnit_of_BOM) (simp add: deleteAll_def)
  next
    case False
    then show ?thesis
      using Cons split deleteAll_BOM_lowerUnit [OF False]
      by (simp add: deleteAll_def toLowerCase_def)
  qed
qed

text \<open>
  The parser's \<open>normalizeHeader\<close> is the algorithm of the specification on the header
  without its byte-order marks.
\<close>

lemma normalizeHeader_marks:
  "normalizeHeader header = spec_normalizeHeader (deleteAll (\<lambda>c. c = BOM) header)"
proof -
  have "(\<lambda>c. isHyphen c \<or> isWhiteSpace c) = (\<lambda>c. isWhiteSpace c \<or> isHyphen c)"
    by auto
  then show ?thesis
    by (simp add: normalizeHeader_def spec_normalizeHeader_def trim_stripLeadingBOM
        deleteAll_BOM_toLowerCase deleteAll_BOM_trim)
qed

lemma normalizeHeader_skips_BOM:
  "normalizeHeader (before @ BOM # following) = normalizeHeader (before @ following)"
  by (simp add: normalizeHeader_marks deleteAll_def)

text \<open>What \<open>collapseRuns\<close> returns: underscores, and the units outside the class.\<close>

lemma set_collapseRuns:
  "set (collapseRuns p s) \<subseteq> insert 0x5F {c \<in> set s. \<not> p c}"
proof (induction p s rule: collapseRuns.induct)
  case (1 p)
  show ?case by simp
next
  case (2 p c cs)
  have sub: "set (dropWhile p cs) \<subseteq> set cs"
    by (auto dest: set_dropWhileD)
  show ?case
  proof (cases "p c")
    case True
    then show ?thesis using "2.IH"(1) [OF True] sub by auto
  next
    case False
    then show ?thesis using "2.IH"(2) [OF False] by auto
  qed
qed

lemma normalizeHeader_no_BOM: "BOM \<notin> set (normalizeHeader header)"
proof
  assume "BOM \<in> set (normalizeHeader header)"
  then have "BOM = 0x5F \<or> \<not> (isHyphen BOM \<or> isWhiteSpace BOM)"
    unfolding normalizeHeader_def
    using set_collapseRuns [of "\<lambda>c. isHyphen c \<or> isWhiteSpace c"] by blast
  then show False
    by (simp add: BOM_def isWhiteSpace_def)
qed

text \<open>
  A normalized header is made of the units \<open>a\<close> to \<open>z\<close>, \<open>0\<close> to \<open>9\<close> and the underscore.
\<close>

lemma lowerUnit_no_capital: "x \<in> set (lowerUnit c) \<Longrightarrow> \<not> (0x41 \<le> x \<and> x \<le> 0x5A)"
  by (auto simp: lowerUnit_def word_le_nat_alt unat_word_ariths split: if_splits)

lemma normalizeHeader_alphabet:
  assumes "c \<in> set (normalizeHeader header)"
  shows "isWordChar c \<and> \<not> (0x41 \<le> c \<and> c \<le> 0x5A)"
proof -
  let ?kept = "deleteAll (\<lambda>c. \<not> (isWordChar c \<or> isWhiteSpace c \<or> isHyphen c))
         (deleteAll (\<lambda>c. c = BOM) (toLowerCase (trim header)))"
  have "c = 0x5F \<or> (c \<in> set ?kept \<and> \<not> (isHyphen c \<or> isWhiteSpace c))"
    using assms unfolding normalizeHeader_def
    using set_collapseRuns [of "\<lambda>c. isHyphen c \<or> isWhiteSpace c"] by blast
  then show ?thesis
  proof
    assume "c = 0x5F"
    then show ?thesis by (simp add: isWordChar_def)
  next
    assume k: "c \<in> set ?kept \<and> \<not> (isHyphen c \<or> isWhiteSpace c)"
    then have "c \<in> set (toLowerCase (trim header))"
      by (auto simp: deleteAll_def)
    then have "\<not> (0x41 \<le> c \<and> c \<le> 0x5A)"
      by (auto simp: toLowerCase_def dest: lowerUnit_no_capital)
    moreover have "isWordChar c"
      using k by (auto simp: deleteAll_def)
    ultimately show ?thesis by simp
  qed
qed

subsection \<open>Entity extraction\<close>

lemmas key_defs = UID_KEYS_def NAME_KEYS_def TYPE_KEYS_def PROGRAM_KEYS_def REMARKS_KEYS_def
  ALT_NAME_KEYS_def ADDRESS_KEYS_def CITY_KEYS_def COUNTRY_KEYS_def

lemmas row_eval = key_defs js_def trim_def isWhiteSpace_def truthy_def orUndefined_def

lemmas example_defs = johnRow_def john_def johnAlias_def johnAddress_def strayAlias_def
  namelessRow_def twinRow_def twin_def

lemma extract_names:
  "map (\<lambda>e. Some (name e)) (extractEntities rows) =
     map (\<lambda>r. firstDefined r NAME_KEYS) (filter accepted rows)"
proof (induction rows)
  case Nil
  show ?case by simp
next
  case (Cons r rows)
  show ?case
  proof (cases "extractRow r")
    case None
    then have "\<not> accepted r" using extractRow_None [of r] by simp
    then show ?thesis using Cons None by (simp add: extractEntities_Cons)
  next
    case (Some e)
    then have "accepted r" using extractRow_None [of r] by simp
    then show ?thesis using Cons Some extractRow_Some [OF Some]
      by (simp add: extractEntities_Cons)
  qed
qed

lemma extract_nonblank:
  "e \<in> set (extractEntities rows) \<Longrightarrow> trim (uid e) \<noteq> [] \<and> trim (name e) \<noteq> []"
proof (induction rows)
  case Nil
  then show ?case by simp
next
  case (Cons r rows)
  show ?case
  proof (cases "extractRow r")
    case None
    then show ?thesis using Cons by (simp add: extractEntities_Cons)
  next
    case (Some e')
    from extractRow_Some [OF Some]
    have "trim (uid e') \<noteq> []" and "trim (name e') \<noteq> []"
      by (auto dest: firstDefined_nonblank)
    then show ?thesis using Cons Some by (auto simp: extractEntities_Cons)
  qed
qed

lemma extract_example:
  "extractEntities [johnRow, namelessRow, twinRow] = [john, twin]"
  by (simp add: extractEntities_def map_filter_simps extractRow_def splitPrograms_def
        example_defs row_eval)

text \<open>
  Claim C4. For every sequence of primary rows, \<open>extractEntities\<close> returns one entity for
  each row whose uid (keys ent_num, entnum, uid, id) and name (keys sdn_name, sdnname, name,
  full_name) both resolve to a non-blank value, and none for any other row: the entities
  are as many as those rows, carry their resolved uids and names in row order, and each
  has a non-blank uid and a non-blank name.
\<close>

theorem extractEntities_complete:
  "length (extractEntities rows) = length (filter accepted rows) \<and>
   map (\<lambda>e. Some (uid e)) (extractEntities rows) =
     map (\<lambda>r. firstDefined r UID_KEYS) (filter accepted rows) \<and>
   map (\<lambda>e. Some (name e)) (extractEntities rows) =
     map (\<lambda>r. firstDefined r NAME_KEYS) (filter accepted rows) \<and>
   (\<forall>e \<in> set (extractEntities rows). trim (uid e) \<noteq> [] \<and> trim (name e) \<noteq> [])"
proof -
  have "length (map (\<lambda>e. Some (uid e)) (extractEntities rows)) =
        length (map (\<lambda>r. firstDefined r UID_KEYS) (filter accepted rows))"
    by (simp only: extract_uids)
  then have "length (extractEntities rows) = length (filter accepted rows)"
    by simp
  then show ?thesis
    using extract_uids extract_names extract_nonblank by blast
qed

theorem extractEntities_complete_witness:
  "john \<in> set (extractEntities [johnRow, namelessRow, twinRow]) \<and>
   length (filter accepted [johnRow, namelessRow, twinRow]) = 2 \<and>
   trim (uid john) \<noteq> [] \<and> trim (name john) \<noteq> []"
proof -
  have mem: "john \<in> set (extractEntities [johnRow, namelessRow, twinRow])"
    by (simp add: extract_example)
  have len: "length (extractEntities [johnRow, namelessRow, twinRow]) = 2"
    by (simp add: extract_example)
  from extractEntities_complete [of "[johnRow, namelessRow, twinRow]"] mem len
  show ?thesis by (metis)
qed

subsection \<open>Join correctness\<close>

lemma aliasOf_johnAlias: "aliasOf johnAlias = Some (js ''123'', js ''Johnny Doe'')"
  by (simp add: aliasOf_def example_defs row_eval)

lemma aliasOf_strayAlias: "aliasOf strayAlias = Some (js ''999'', js ''Nobody'')"
  by (simp add: aliasOf_def example_defs row_eval)

lemma addressOf_johnAddress:
  "addressOf johnAddress =
     Some (js ''123'', \<lparr> address = Some (js ''123 Main St''), city = Some (js ''NY''),
                         country = None \<rparr>)"
  by (simp add: addressOf_def example_defs row_eval)

lemma addressOf_strayAlias: "addressOf strayAlias = None"
  by (simp add: addressOf_def example_defs row_eval)

lemma addressOf_johnAlias: "addressOf johnAlias = None"
  by (simp add: addressOf_def example_defs row_eval)

lemma matchedAt_john: "matchedAt [john] (js ''123'') 0" "\<not> matchedAt [john] (js ''999'') 0"
  by (simp_all add: matchedAt_def example_defs js_def)

lemma uidUnmatched_stray: "uidUnmatched [john] strayAlias"
  by (simp add: uidUnmatched_def example_defs row_eval)

text \<open>
  Claim C5. For every entity collection and every sequence of alias or address rows: if
  no row resolves to the uid of an entity, both consolidators return the collection as it
  is; and in general they keep the collection's length, and the entity at each position
  comes back with exactly the alias names (address records) of the rows with a valid
  payload whose uid the lookup maps to that position, appended in row order, and nothing
  else changed.
\<close>

theorem join_correct:
  "(list_all (uidUnmatched es) rows \<longrightarrow>
      consolidateAltData es rows = es \<and> consolidateAddData es rows = es) \<and>
   length (consolidateAltData es rows) = length es \<and>
   length (consolidateAddData es rows) = length es \<and>
   (\<forall>i < length es.
      consolidateAltData es rows ! i = (es ! i)\<lparr> aka := aka (es ! i) @ aliasesAt es i rows \<rparr> \<and>
      consolidateAddData es rows ! i =
        (es ! i)\<lparr> addresses := addresses (es ! i) @ addressesAt es i rows \<rparr>)"
  using consolidate_unmatched [of es rows]
  by (simp add: consolidateAltData_nth consolidateAddData_nth joined_entityMap_alias
        joined_entityMap_address)

theorem join_correct_witness:
  "list_all (uidUnmatched [john]) [strayAlias] \<and>
   consolidateAltData [john] [strayAlias] = [john] \<and>
   consolidateAddData [john] [strayAlias] = [john] \<and>
   consolidateAltData [john] [strayAlias, johnAlias, johnAlias] ! 0 =
     john\<lparr> aka := [js ''Johnny Doe'', js ''Johnny Doe''] \<rparr> \<and>
   consolidateAddData [john] [johnAddress, johnAlias] ! 0 =
     john\<lparr> addresses := [\<lparr> address = Some (js ''123 Main St''), city = Some (js ''NY''),
                              country = None \<rparr>] \<rparr>"
proof -
  have un: "list_all (uidUnmatched [john]) [strayAlias]"
    by (simp add: uidUnmatched_stray)
  have a: "aliasesAt [john] 0 [strayAlias, johnAlias, johnAlias] =
             [js ''Johnny Doe'', js ''Johnny Doe'']"
    by (simp add: aliasesAt_def map_filter_simps aliasOf_johnAlias aliasOf_strayAlias
          matchedAt_john)
  have b: "addressesAt [john] 0 [johnAddress, johnAlias] =
             [\<lparr> address = Some (js ''123 Main St''), city = Some (js ''NY''), country = None \<rparr>]"
    by (simp add: addressesAt_def map_filter_simps addressOf_johnAddress addressOf_johnAlias
          matchedAt_john)
  have k: "aka john = []" "addresses john = []"
    by (simp_all add: john_def)
  show ?thesis
    using un join_correct [of "[john]" "[strayAlias]"]
      join_correct [of "[john]" "[strayAlias, johnAlias, johnAlias]"]
      join_correct [of "[john]" "[johnAddress, johnAlias]"]
    by (simp add: a b k)
qed

subsection \<open>Repeated identifiers\<close>

lemma matchedAt_earlier:
  assumes "i < j" and "j < length es" and "uid (es ! i) = uid (es ! j)"
  shows "\<not> matchedAt es u i"
proof
  assume m: "matchedAt es u i"
  have "drop (Suc i) es ! (j - Suc i) = es ! j"
    using assms by simp
  moreover have "j - Suc i < length (drop (Suc i) es)"
    using assms by simp
  ultimately have "es ! j \<in> set (drop (Suc i) es)"
    by (metis nth_mem)
  then have "uid (es ! j) \<in> set (map uid (drop (Suc i) es))"
    by simp
  then show False
    using m assms(3) by (simp add: matchedAt_def)
qed

lemma aliasesAt_unmatched: "(\<And>u. \<not> matchedAt es u i) \<Longrightarrow> aliasesAt es i rows = []"
  by (simp add: aliasesAt_def split_def)

lemma addressesAt_unmatched: "(\<And>u. \<not> matchedAt es u i) \<Longrightarrow> addressesAt es i rows = []"
  by (simp add: addressesAt_def split_def)

lemma matchedAt_last:
  "j < length es \<Longrightarrow> uid (es ! j) \<notin> set (map uid (drop (Suc j) es)) \<Longrightarrow>
     matchedAt es u j \<longleftrightarrow> u = uid (es ! j)"
  by (auto simp: matchedAt_def)

text \<open>
  Claim C9. When two entities of the collection share a uid, the consolidators leave the
  earlier one exactly as it was; and an entity that is the last with its uid receives the
  alias names and the address records of all valid rows that resolve to that uid, in row
  order.
\<close>

theorem duplicates_last_wins:
  "(i < j \<and> j < length es \<and> uid (es ! i) = uid (es ! j) \<longrightarrow>
      consolidateAltData es altRows ! i = es ! i \<and>
      consolidateAddData es addRows ! i = es ! i) \<and>
   (j < length es \<and> uid (es ! j) \<notin> set (map uid (drop (Suc j) es)) \<longrightarrow>
      consolidateAltData es altRows ! j =
        (es ! j)\<lparr> aka := aka (es ! j) @ withUid (uid (es ! j)) (List.map_filter aliasOf altRows) \<rparr> \<and>
      consolidateAddData es addRows ! j =
        (es ! j)\<lparr> addresses := addresses (es ! j)
           @ withUid (uid (es ! j)) (List.map_filter addressOf addRows) \<rparr>)"
proof (intro conjI impI)
  assume h: "i < j \<and> j < length es \<and> uid (es ! i) = uid (es ! j)"
  then have no: "\<And>u. \<not> matchedAt es u i"
    using matchedAt_earlier [of i j es] by blast
  have i: "i < length es" using h by simp
  show "consolidateAltData es altRows ! i = es ! i"
    using i by (simp add: consolidateAltData_nth joined_entityMap_alias
          aliasesAt_unmatched [OF no])
  show "consolidateAddData es addRows ! i = es ! i"
    using i by (simp add: consolidateAddData_nth joined_entityMap_address
          addressesAt_unmatched [OF no])
next
  assume h: "j < length es \<and> uid (es ! j) \<notin> set (map uid (drop (Suc j) es))"
  then have m: "\<And>u. matchedAt es u j \<longleftrightarrow> u = uid (es ! j)"
    using matchedAt_last [of j es] by blast
  have j: "j < length es" using h by simp
  show "consolidateAltData es altRows ! j =
        (es ! j)\<lparr> aka := aka (es ! j) @ withUid (uid (es ! j)) (List.map_filter aliasOf altRows) \<rparr>"
    using j by (simp add: consolidateAltData_nth joined_entityMap_alias aliasesAt_def
          withUid_def m)
  show "consolidateAddData es addRows ! j =
        (es ! j)\<lparr> addresses := addresses (es ! j)
           @ withUid (uid (es ! j)) (List.map_filter addressOf addRows) \<rparr>"
    using j by (simp add: consolidateAddData_nth joined_entityMap_address addressesAt_def
          withUid_def m)
qed

theorem duplicates_last_wins_witness:
  "extractEntities [johnRow, namelessRow, twinRow] = [john, twin] \<and>
   uid john = uid twin \<and>
   consolidateAltData [john, twin] [johnAlias, strayAlias] ! 0 = john \<and>
   consolidateAddData [john, twin] [johnAddress] ! 0 = john \<and>
   consolidateAltData [john, twin] [johnAlias, strayAlias] ! 1 =
     twin\<lparr> aka := [js ''Johnny Doe''] \<rparr> \<and>
   consolidateAddData [john, twin] [johnAddress] ! 1 =
     twin\<lparr> addresses := [\<lparr> address = Some (js ''123 Main St''), city = Some (js ''NY''),
                              country = None \<rparr>] \<rparr>"
proof -
  have u: "uid john = js ''123''" "uid twin = js ''123''" "aka twin = []" "addresses twin = []"
    by (simp_all add: john_def twin_def)
  show ?thesis
    using duplicates_last_wins [of 0 1 "[john, twin]" "[johnAlias, strayAlias]" "[johnAddress]"]
    by (simp add: extract_example u withUid_def map_filter_simps aliasOf_johnAlias
          aliasOf_strayAlias addressOf_johnAddress js_def)
qed

text \<open>
  Claim C1, as stated, fails: two primary rows with the same identifier give two entities
  with the same uid.
\<close>

theorem uid_unique_counterexample:
  "\<not> distinct (map uid (extractEntities [johnRow, twinRow]))"
  by (simp add: extractEntities_def map_filter_simps extractRow_def splitPrograms_def
        example_defs row_eval)

text \<open>
  Claim C1, amended. The consolidators keep the sequence of uids that \<open>extractEntities\<close>
  produced, and those uids are pairwise different exactly when the accepted primary rows
  resolve to pairwise different identifiers.
\<close>

theorem uids_follow_rows:
  "map uid (consolidateAddData (consolidateAltData (extractEntities rows) altRows) addRows) =
     map uid (extractEntities rows) \<and>
   (distinct (map uid (extractEntities rows)) \<longleftrightarrow>
      distinct (map (\<lambda>r. firstDefined r UID_KEYS) (filter accepted rows)))"
proof -
  have "distinct (map (\<lambda>e. Some (uid e)) (extractEntities rows)) \<longleftrightarrow>
        distinct (map uid (extractEntities rows))"
    by (simp add: distinct_map inj_on_def)
  then show ?thesis
    by (simp add: extract_uids)
qed

theorem uids_follow_rows_witness:
  "map uid (consolidateAddData (consolidateAltData (extractEntities [johnRow, namelessRow])
      [johnAlias]) [johnAddress]) = [js ''123''] \<and>
   distinct (map (\<lambda>r. firstDefined r UID_KEYS) (filter accepted [johnRow, namelessRow]))"
proof -
  have e: "extractEntities [johnRow, namelessRow] = [john]"
    by (simp add: extractEntities_def map_filter_simps extractRow_def splitPrograms_def
          example_defs row_eval)
  have u: "uid john = js ''123''"
    by (simp add: john_def)
  show ?thesis
    using uids_follow_rows [of "[johnRow, namelessRow]" "[johnAlias]" "[johnAddress]"]
    by (simp add: e u)
qed

subsection \<open>Header normalizer, compared with the specification\<close>

lemmas header_eval = normalizeHeader_def normalizeHeader_update_def spec_normalizeHeader_def
  stripLeadingBOM_def BOM_def deleteAll_def toLowerCase_def lowerUnit_def isWordChar_def
  isHyphen_def js_def trim_def isWhiteSpace_def

text \<open>
  Claim C6, as stated, fails for a byte-order mark inside the header. The algorithm of
  the specification strips a leading mark only: a mark between \<open>Ent\<close> and \<open>Num\<close> is then
  the whitespace that it is for \<open>trim\<close> and \<open>\s\<close>, and becomes an underscore. The
  parser's \<open>normalizeHeader\<close> deletes the mark.
\<close>

theorem normalizeHeader_counterexample:
  "normalizeHeader (js ''Ent'' @ BOM # js ''Num'') = js ''entnum'' \<and>
   spec_normalizeHeader (js ''Ent'' @ BOM # js ''Num'') = js ''ent_num'' \<and>
   normalizeHeader (js ''Ent'' @ BOM # js ''Num'') \<noteq>
     spec_normalizeHeader (js ''Ent'' @ BOM # js ''Num'')"
  by (simp add: header_eval)

text \<open>
  The copy of \<open>normalizeHeader\<close> in the stand-alone ofac-update.ts deletes the hyphen of
  \<open>SDN-Type\<close>, which the parser's function, as its test asks, turns into an underscore.
\<close>

lemma normalizeHeader_update_hyphen:
  "normalizeHeader_update (js ''SDN-Type'') = js ''sdntype'' \<and>
   normalizeHeader (js ''SDN-Type'') = js ''sdn_type''"
  by (simp add: header_eval)

text \<open>
  Claim C6, amended. The parser's \<open>normalizeHeader\<close> is a total function that deletes a
  byte-order mark wherever it stands: its result is that of the algorithm of the
  specification on the header without its marks, a mark anywhere in the header makes no
  difference to the result, and the result holds no mark. On every header with no mark
  other than a leading one the result is that of the algorithm of the specification on
  the header itself. The four example headers map as the specification says.
\<close>

theorem normalizeHeader_refines:
  "normalizeHeader header = spec_normalizeHeader (deleteAll (\<lambda>c. c = BOM) header) \<and>
   normalizeHeader (before @ BOM # following) = normalizeHeader (before @ following) \<and>
   BOM \<notin> set (normalizeHeader header) \<and>
   (BOM \<notin> set (stripLeadingBOM header) \<longrightarrow>
      normalizeHeader header = spec_normalizeHeader header) \<and>
   normalizeHeader (js ''Ent Num'') = js ''ent_num'' \<and>
   normalizeHeader (js ''Program(s)'') = js ''programs'' \<and>
   normalizeHeader (BOM # js ''Ent Num'') = js ''ent_num'' \<and>
   normalizeHeader (js ''SDN-Type'') = js ''sdn_type''"
proof -
  have "normalizeHeader (js ''Ent Num'') = js ''ent_num''"
    by (simp add: header_eval)
  moreover have "normalizeHeader (js ''Program(s)'') = js ''programs''"
    by (simp add: header_eval)
  moreover have "normalizeHeader (BOM # js ''Ent Num'') = js ''ent_num''"
    by (simp add: header_eval)
  moreover have "normalizeHeader (js ''SDN-Type'') = js ''sdn_type''"
    by (simp add: header_eval)
  ultimately show ?thesis
    using normalizeHeader_spec [of header] normalizeHeader_marks [of header]
      normalizeHeader_skips_BOM [of before following] normalizeHeader_no_BOM [of header]
    by blast
qed

theorem normalizeHeader_refines_witness:
  "BOM \<notin> set (stripLeadingBOM (BOM # js '' SDN Name '')) \<and>
   spec_normalizeHeader (BOM # js '' SDN Name '') = js ''sdn_name'' \<and>
   normalizeHeader (BOM # js '' SDN Name '') = js ''sdn_name'' \<and>
   normalizeHeader (js ''SDN'' @ BOM # js '' Name'') = normalizeHeader (js ''SDN Name'') \<and>
   normalizeHeader (js ''SDN Name'') = js ''sdn_name''"
proof -
  have h: "BOM \<notin> set (stripLeadingBOM (BOM # js '' SDN Name ''))"
    by (simp add: stripLeadingBOM_def BOM_def js_def)
  have s: "spec_normalizeHeader (BOM # js '' SDN Name '') = js ''sdn_name''"
    by (simp add: header_eval)
  have j: "js ''SDN'' @ js '' Name'' = js ''SDN Name''"
    by (simp add: js_def)
  have n: "normalizeHeader (js ''SDN Name'') = js ''sdn_name''"
    by (simp add: header_eval)
  show ?thesis
    using h s j n
      normalizeHeader_refines
        [of "BOM # js '' SDN Name ''" "js ''SDN''" "js '' Name''"]
    by metis
qed

subsection \<open>JSON text\<close>

lemma hexValue_hexDigit: "d < 16 \<Longrightarrow> hexValue (hexDigit d) = Some d"
  by (simp add: hexValue_def hexDigit_def unat_of_nat Let_def)

lemma nibbles:
  fixes n :: nat
  shows "4096 * (n div 4096) + 256 * (n div 256 mod 16) + 16 * (n div 16 mod 16) + n mod 16 = n"
proof -
  define a where "a = n div 4096"
  define b where "b = n div 256 mod 16"
  define c where "c = n div 16 mod 16"
  define d where "d = n mod 16"
  define p where "p = n div 16"
  define q where "q = n div 256"
  have e1: "n = 16 * p + d"
    by (simp add: p_def d_def)
  have "p div 16 = q"
    by (simp add: p_def q_def div_mult2_eq [symmetric])
  then have e2: "p = 16 * q + c"
    using div_mult_mod_eq [of p 16] by (simp add: c_def p_def mult.commute)
  have "q div 16 = a"
    by (simp add: q_def a_def div_mult2_eq [symmetric])
  then have e3: "q = 16 * a + b"
    using div_mult_mod_eq [of q 16] by (simp add: b_def q_def mult.commute)
  have "4096 * a + 256 * b + 16 * c + d = n"
    unfolding e1 e2 e3 by simp
  then show ?thesis
    by (simp only: a_def b_def c_def d_def)
qed

lemma hex4_escape:
  "hex4 (hexDigit (unat c div 4096)) (hexDigit (unat c div 256 mod 16))
        (hexDigit (unat c div 16 mod 16)) (hexDigit (unat c mod 16)) = Some c"
proof -
  have lt: "unat c < 65536" using unsigned_less [of c, where ?'a = nat] by simp
  then have a: "unat c div 4096 < 16" by simp
  show ?thesis
    using a by (simp add: hex4_def hexValue_hexDigit nibbles)
qed

lemma parseChars_unicodeEscape:
  "parseChars (unicodeEscape c @ t) = consUnit c (parseChars t)"
  by (simp add: unicodeEscape_def hex4_escape)

lemma parseChars_escapeUnit:
  "parseChars (escapeUnit c @ t) = consUnit c (parseChars t)"
  by (simp add: escapeUnit_def parseChars_unicodeEscape unescape_def)

lemma surrogate_plain:
  "isLeadSurrogate c \<or> isTrailSurrogate c \<Longrightarrow> c \<noteq> 0x22 \<and> c \<noteq> 0x5C \<and> \<not> c < 0x20"
  by (auto simp: isLeadSurrogate_def isTrailSurrogate_def word_le_nat_alt word_less_nat_alt)

lemma parseChars_plain:
  "isLeadSurrogate c \<or> isTrailSurrogate c \<Longrightarrow> parseChars (c # t) = consUnit c (parseChars t)"
  using surrogate_plain [of c] by simp

lemma parseChars_quoteUnits:
  "parseChars (quoteUnits s @ 0x22 # rest) = Some (s, rest)"
proof (induction s rule: quoteUnits.induct)
  case 1
  show ?case by simp
next
  case (2 c)
  show ?case
    by (simp add: parseChars_unicodeEscape parseChars_escapeUnit consUnit_def)
next
  case (3 c d cs)
  show ?case
  proof (cases "isLeadSurrogate c \<and> isTrailSurrogate d")
    case True
    then show ?thesis
      using 3 by (simp add: parseChars_plain consUnit_def del: parseChars.simps)
  next
    case False
    then show ?thesis
      using 3 by (auto simp: parseChars_unicodeEscape parseChars_escapeUnit consUnit_def
            simp del: parseChars.simps)
  qed
qed

lemma skipWs_Cons: "\<not> isJsonSpace c \<Longrightarrow> skipWs (c # s) = c # s"
  by (simp add: skipWs_def)

lemma space_facts [simp]:
  "\<not> isJsonSpace 0x22" "\<not> isJsonSpace 0x5B" "\<not> isJsonSpace 0x7B" "\<not> isJsonSpace 0x5D"
  "\<not> isJsonSpace 0x7D" "\<not> isJsonSpace 0x2C" "\<not> isJsonSpace 0x3A"
  by (simp_all add: isJsonSpace_def)

lemma parseChars_quoted:
  "parseChars (quoteUnits s @ 0x22 # rest) = Some (s, rest)"
  by (rule parseChars_quoteUnits)

lemma parseLiteral_null: "parseLiteral (js ''null'' @ rest) = Some (JNull, rest)"
  by (simp add: parseLiteral_def stripPrefix_def js_def)

lemma parseLiteral_true: "parseLiteral (js ''true'' @ rest) = Some (JBool True, rest)"
  by (simp add: parseLiteral_def stripPrefix_def js_def)

lemma parseLiteral_false: "parseLiteral (js ''false'' @ rest) = Some (JBool False, rest)"
  by (simp add: parseLiteral_def stripPrefix_def js_def)

lemma opens_append: "opens s \<Longrightarrow> opens (s @ t)"
  by (cases s) (auto simp: opens_def)

lemma opens_stringify: "numberFree v \<Longrightarrow> opens (stringify v)"
  by (cases v) (auto simp: opens_def js_def quoteJSONString_def isJsonSpace_def)

lemma opens_elements: "numberFreeElements vs \<Longrightarrow> vs \<noteq> [] \<Longrightarrow> opens (stringifyElements vs)"
proof (cases vs)
  case Nil
  then show "vs \<noteq> [] \<Longrightarrow> opens (stringifyElements vs)" by simp
next
  case (Cons v ws)
  then show "numberFreeElements vs \<Longrightarrow> opens (stringifyElements vs)"
    by (cases ws) (auto simp: opens_stringify opens_append)
qed

lemma opens_skip:
  "opens s \<Longrightarrow> \<exists>c cs. s = c # cs \<and> skipWs s = c # cs \<and> c \<noteq> 0x5D \<and> c \<noteq> 0x7D"
  by (cases s) (auto simp: opens_def skipWs_def)

lemma value_literals:
  "parseValue (Suc m) (js ''null'' @ rest) = Some (JNull, rest)"
  "parseValue (Suc m) (js ''true'' @ rest) = Some (JBool True, rest)"
  "parseValue (Suc m) (js ''false'' @ rest) = Some (JBool False, rest)"
  using parseLiteral_null [of rest] parseLiteral_true [of rest] parseLiteral_false [of rest]
  by (simp_all add: skipWs_def isJsonSpace_def js_def)

lemma value_string:
  "parseValue (Suc m) (quoteJSONString s @ rest) = Some (JString s, rest)"
  by (simp add: quoteJSONString_def skipWs_Cons parseChars_quoted)

lemma value_array_empty: "parseValue (Suc m) (0x5B # 0x5D # rest) = Some (JArray [], rest)"
  by (simp add: skipWs_Cons)

lemma value_object_empty: "parseValue (Suc m) (0x7B # 0x7D # rest) = Some (JObject [], rest)"
  by (simp add: skipWs_Cons)

lemma value_array:
  assumes "opens inner" and "parseElements m (inner @ 0x5D # rest) = Some (vs, rest)"
  shows "parseValue (Suc m) (0x5B # inner @ 0x5D # rest) = Some (JArray vs, rest)"
proof -
  obtain c cs where "inner @ 0x5D # rest = c # cs" "skipWs (inner @ 0x5D # rest) = c # cs"
    "c \<noteq> 0x5D"
    using opens_skip [OF opens_append [OF assms(1)], of "0x5D # rest"] by blast
  then show ?thesis
    using assms(2) by (simp add: skipWs_Cons)
qed

lemma value_object:
  assumes "opens inner" and "parseMembers m (inner @ 0x7D # rest) = Some (ms, rest)"
  shows "parseValue (Suc m) (0x7B # inner @ 0x7D # rest) = Some (JObject ms, rest)"
proof -
  obtain c cs where "inner @ 0x7D # rest = c # cs" "skipWs (inner @ 0x7D # rest) = c # cs"
    "c \<noteq> 0x7D"
    using opens_skip [OF opens_append [OF assms(1)], of "0x7D # rest"] by blast
  then show ?thesis
    using assms(2) by (simp add: skipWs_Cons)
qed

lemma elements_last:
  assumes "parseValue m (text @ 0x5D # rest) = Some (v, 0x5D # rest)"
  shows "parseElements (Suc m) (text @ 0x5D # rest) = Some ([v], rest)"
  using assms by (simp add: skipWs_Cons)

lemma elements_more:
  assumes "parseValue m (text @ 0x2C # following) = Some (v, 0x2C # following)"
    and "parseElements m following = Some (vs, rest)"
  shows "parseElements (Suc m) (text @ 0x2C # following) = Some (v # vs, rest)"
  using assms by (simp add: skipWs_Cons)

lemma members_last:
  assumes "parseValue m (text @ 0x7D # rest) = Some (v, 0x7D # rest)"
  shows "parseMembers (Suc m) (quoteJSONString k @ 0x3A # text @ 0x7D # rest) =
           Some ([(k, v)], rest)"
  using assms by (simp add: quoteJSONString_def skipWs_Cons parseChars_quoted)

lemma members_more:
  assumes "parseValue m (text @ 0x2C # following) = Some (v, 0x2C # following)"
    and "parseMembers m following = Some (ms, rest)"
  shows "parseMembers (Suc m) (quoteJSONString k @ 0x3A # text @ 0x2C # following) =
           Some ((k, v) # ms, rest)"
  using assms by (simp add: quoteJSONString_def skipWs_Cons parseChars_quoted)

lemma opens_members: "ms \<noteq> [] \<Longrightarrow> opens (stringifyMembers ms)"
proof (cases ms)
  case Nil
  then show "ms \<noteq> [] \<Longrightarrow> opens (stringifyMembers ms)" by simp
next
  case (Cons m ms')
  then show "opens (stringifyMembers ms)"
    by (cases m; cases ms') (auto simp: opens_def quoteJSONString_def)
qed

lemma round_trip:
  "(numberFree v \<longrightarrow>
      (\<forall>n rest. need v \<le> n \<longrightarrow> parseValue n (stringify v @ rest) = Some (v, rest)))"
  "(numberFreeElements vs \<longrightarrow> vs \<noteq> [] \<longrightarrow>
      (\<forall>n rest. needElements vs \<le> n \<longrightarrow>
         parseElements n (stringifyElements vs @ 0x5D # rest) = Some (vs, rest)))"
  "(numberFreeMembers ms \<longrightarrow> ms \<noteq> [] \<longrightarrow>
      (\<forall>n rest. needMembers ms \<le> n \<longrightarrow>
         parseMembers n (stringifyMembers ms @ 0x7D # rest) = Some (ms, rest)))"
proof (induction v and vs and ms rule: stringify_stringifyElements_stringifyMembers.induct)
  case 1
  show ?case
  proof (intro impI allI)
    fix n rest assume "need JNull \<le> n"
    then obtain m where n: "n = Suc m" by (cases n) auto
    show "parseValue n (stringify JNull @ rest) = Some (JNull, rest)"
      unfolding n by (simp add: value_literals del: parseValue.simps)
  qed
next
  case (2 b)
  show ?case
  proof (intro impI allI)
    fix n rest assume "need (JBool b) \<le> n"
    then obtain m where n: "n = Suc m" by (cases n) auto
    show "parseValue n (stringify (JBool b) @ rest) = Some (JBool b, rest)"
      unfolding n by (cases b) (simp_all add: value_literals del: parseValue.simps)
  qed
next
  case (3 literal)
  show ?case by simp
next
  case (4 s)
  show ?case
  proof (intro impI allI)
    fix n rest assume "need (JString s) \<le> n"
    then obtain m where n: "n = Suc m" by (cases n) auto
    show "parseValue n (stringify (JString s) @ rest) = Some (JString s, rest)"
      unfolding n by (simp add: value_string del: parseValue.simps)
  qed
next
  case (5 vs)
  show ?case
  proof (intro impI allI)
    fix n rest assume free: "numberFree (JArray vs)" and fuel: "need (JArray vs) \<le> n"
    then obtain m where n: "n = Suc m" and m: "needElements vs \<le> m" by (cases n) auto
    show "parseValue n (stringify (JArray vs) @ rest) = Some (JArray vs, rest)"
    proof (cases "vs = []")
      case True
      then show ?thesis unfolding n by (simp add: value_array_empty del: parseValue.simps)
    next
      case False
      have "parseElements m (stringifyElements vs @ 0x5D # rest) = Some (vs, rest)"
        using 5 free False m by simp
      moreover have "opens (stringifyElements vs)"
        using free False by (simp add: opens_elements)
      ultimately show ?thesis
        unfolding n using value_array [of "stringifyElements vs" m rest vs]
        by (simp del: parseValue.simps)
    qed
  qed
next
  case (6 ms)
  show ?case
  proof (intro impI allI)
    fix n rest assume free: "numberFree (JObject ms)" and fuel: "need (JObject ms) \<le> n"
    then obtain m where n: "n = Suc m" and m: "needMembers ms \<le> m" by (cases n) auto
    show "parseValue n (stringify (JObject ms) @ rest) = Some (JObject ms, rest)"
    proof (cases "ms = []")
      case True
      then show ?thesis unfolding n by (simp add: value_object_empty del: parseValue.simps)
    next
      case False
      have "parseMembers m (stringifyMembers ms @ 0x7D # rest) = Some (ms, rest)"
        using 6 free False m by simp
      moreover have "opens (stringifyMembers ms)"
        using False by (simp add: opens_members)
      ultimately show ?thesis
        unfolding n using value_object [of "stringifyMembers ms" m rest ms]
        by (simp del: parseValue.simps)
    qed
  qed
next
  case 7
  show ?case by simp
next
  case (8 v)
  show ?case
  proof (intro impI allI)
    fix n rest assume free: "numberFreeElements [v]" and fuel: "needElements [v] \<le> n"
    then obtain m where n: "n = Suc m" and m: "need v \<le> m" by (cases n) auto
    have "parseValue m (stringify v @ 0x5D # rest) = Some (v, 0x5D # rest)"
      using 8 free m by simp
    then show "parseElements n (stringifyElements [v] @ 0x5D # rest) = Some ([v], rest)"
      unfolding n using elements_last [of m "stringify v" rest v]
      by (simp del: parseValue.simps parseElements.simps)
  qed
next
  case (9 v w vs)
  show ?case
  proof (intro impI allI)
    fix n rest
    assume free: "numberFreeElements (v # w # vs)" and fuel: "needElements (v # w # vs) \<le> n"
    then obtain m where n: "n = Suc m" and m1: "need v \<le> m"
      and m2: "needElements (w # vs) \<le> m" by (cases n) auto
    let ?following = "stringifyElements (w # vs) @ 0x5D # rest"
    have "parseValue m (stringify v @ 0x2C # ?following) = Some (v, 0x2C # ?following)"
      using "9.IH"(1) free m1 by simp
    moreover have "parseElements m ?following = Some (w # vs, rest)"
      using "9.IH"(2) free m2 by simp
    ultimately show "parseElements n (stringifyElements (v # w # vs) @ 0x5D # rest) =
        Some (v # w # vs, rest)"
      unfolding n using elements_more [of m "stringify v" ?following v "w # vs" rest]
      by (simp del: parseValue.simps parseElements.simps)
  qed
next
  case 10
  show ?case by simp
next
  case (11 k v)
  show ?case
  proof (intro impI allI)
    fix n rest assume free: "numberFreeMembers [(k, v)]" and fuel: "needMembers [(k, v)] \<le> n"
    then obtain m where n: "n = Suc m" and m: "need v \<le> m" by (cases n) auto
    have "parseValue m (stringify v @ 0x7D # rest) = Some (v, 0x7D # rest)"
      using 11 free m by simp
    then show "parseMembers n (stringifyMembers [(k, v)] @ 0x7D # rest) = Some ([(k, v)], rest)"
      unfolding n using members_last [of m "stringify v" rest v k]
      by (simp del: parseValue.simps parseMembers.simps)
  qed
next
  case (12 k v p ms)
  show ?case
  proof (intro impI allI)
    fix n rest
    assume free: "numberFreeMembers ((k, v) # p # ms)"
      and fuel: "needMembers ((k, v) # p # ms) \<le> n"
    then obtain m where n: "n = Suc m" and m1: "need v \<le> m"
      and m2: "needMembers (p # ms) \<le> m" by (cases n) auto
    let ?following = "stringifyMembers (p # ms) @ 0x7D # rest"
    have "parseValue m (stringify v @ 0x2C # ?following) = Some (v, 0x2C # ?following)"
      using "12.IH"(1) free m1 by simp
    moreover have "parseMembers m ?following = Some (p # ms, rest)"
      using "12.IH"(2) free m2 by simp
    ultimately show "parseMembers n (stringifyMembers ((k, v) # p # ms) @ 0x7D # rest) =
        Some ((k, v) # p # ms, rest)"
      unfolding n using members_more [of m "stringify v" ?following v "p # ms" rest k]
      by (simp del: parseValue.simps parseMembers.simps)
  qed
qed

lemma need_le_length:
  "numberFree v \<longrightarrow> need v \<le> length (stringify v)"
  "numberFreeElements vs \<longrightarrow> needElements vs \<le> Suc (length (stringifyElements vs))"
  "numberFreeMembers ms \<longrightarrow> needMembers ms \<le> Suc (length (stringifyMembers ms))"
  by (induction v and vs and ms rule: stringify_stringifyElements_stringifyMembers.induct)
     (auto simp: js_def quoteJSONString_def)

lemma JSON_parse_stringify: "numberFree v \<Longrightarrow> JSON_parse (JSON_stringify v) = Inr v"
proof -
  assume free: "numberFree v"
  then have "need v \<le> 2 * length (stringify v) + 2"
    using need_le_length(1) [of v] by simp
  then have "parseValue (2 * length (stringify v) + 2) (stringify v @ []) = Some (v, [])"
    using round_trip(1) [of v] free by blast
  then show ?thesis
    by (simp add: JSON_parse_def JSON_stringify_def skipWs_def)
qed

lemma wellFormed_plain_Cons: "plain c \<Longrightarrow> wellFormed (c # s) = wellFormed s"
  by (cases s) (auto simp: plain_def)

lemma wellFormed_plain_append: "list_all plain p \<Longrightarrow> wellFormed (p @ s) = wellFormed s"
  by (induction p) (auto simp: wellFormed_plain_Cons simp del: wellFormed.simps)

lemma plain_ascii: "unat c < 128 \<Longrightarrow> plain c"
  by (auto simp: plain_def isLeadSurrogate_def isTrailSurrogate_def word_le_nat_alt)

lemma plain_hexDigit: "d < 16 \<Longrightarrow> plain (hexDigit d)"
  by (rule plain_ascii) (simp add: hexDigit_def unat_of_nat)

lemma plain_unicodeEscape: "list_all plain (unicodeEscape c)"
proof -
  have "unat c < 65536" using unsigned_less [of c, where ?'a = nat] by simp
  then have "unat c div 4096 < 16" by simp
  then show ?thesis
    by (simp add: unicodeEscape_def plain_hexDigit plain_ascii)
qed

lemma plain_escapeUnit: "plain c \<Longrightarrow> list_all plain (escapeUnit c)"
  by (simp add: escapeUnit_def plain_unicodeEscape plain_ascii)

lemma wellFormed_quoteUnits: "wellFormed (quoteUnits s @ t) = wellFormed t"
proof (induction s rule: quoteUnits.induct)
  case 1
  show ?case by simp
next
  case (2 c)
  show ?case
    by (auto simp: wellFormed_plain_append plain_unicodeEscape plain_escapeUnit plain_def
          simp del: wellFormed.simps)
next
  case (3 c d cs)
  show ?case
  proof (cases "isLeadSurrogate c \<and> isTrailSurrogate d")
    case True
    then show ?thesis using 3 by simp
  next
    case False
    then show ?thesis
      using 3
      by (auto simp: wellFormed_plain_append plain_unicodeEscape plain_escapeUnit plain_def
            simp del: wellFormed.simps)
  qed
qed

lemma wellFormed_quoted: "wellFormed (quoteJSONString s @ t) = wellFormed t"
  by (simp add: quoteJSONString_def wellFormed_plain_Cons plain_ascii wellFormed_quoteUnits
        del: wellFormed.simps)

lemma wellFormed_js: "list_all (\<lambda>c. of_char c < (128::nat)) a \<Longrightarrow> wellFormed (js a @ t) = wellFormed t"
  by (rule wellFormed_plain_append)
     (induction a, auto simp: js_def plain_ascii unat_of_nat)

lemma wellFormed_stringify:
  "numberFree v \<longrightarrow> (\<forall>t. wellFormed (stringify v @ t) = wellFormed t)"
  "numberFreeElements vs \<longrightarrow> (\<forall>t. wellFormed (stringifyElements vs @ t) = wellFormed t)"
  "numberFreeMembers ms \<longrightarrow> (\<forall>t. wellFormed (stringifyMembers ms @ t) = wellFormed t)"
  by (induction v and vs and ms rule: stringify_stringifyElements_stringifyMembers.induct)
     (auto simp: wellFormed_quoted wellFormed_js wellFormed_plain_Cons plain_ascii
        simp del: wellFormed.simps)

lemma wellFormed_JSON_stringify: "numberFree v \<Longrightarrow> wellFormed (JSON_stringify v)"
proof -
  assume "numberFree v"
  then have "wellFormed (stringify v @ []) = wellFormed []"
    using wellFormed_stringify(1) [of v] by blast
  then show ?thesis by (simp add: JSON_stringify_def)
qed

subsection \<open>Dataset codec\<close>

lemma allSome_strings: "allSome (map (stringOfJson \<circ> JString) xs) = Some xs"
  by (induction xs) auto

lemma addressFromJson_addressToJson: "addressFromJson (addressToJson a) = Some a"
  by (cases a)
     (auto simp: addressToJson_def optionalProperty_def optionalStringProperty_def
        property_def js_def split: option.splits)

lemma allSome_addresses: "allSome (map (addressFromJson \<circ> addressToJson) xs) = Some xs"
  by (induction xs) (auto simp: addressFromJson_addressToJson)

lemma entityFromJson_entityToJson: "entityFromJson (entityToJson e) = Some e"
  by (cases e)
     (auto simp: entityToJson_def optionalProperty_def optionalStringProperty_def
        stringProperty_def stringArrayProperty_def property_def js_def allSome_strings
        allSome_addresses split: option.splits)

lemma entitiesFromJson_entitiesToJson: "entitiesFromJson (entitiesToJson es) = Some es"
  by (induction es) (auto simp: entitiesToJson_def entityFromJson_entityToJson)

lemma numberFree_strings: "numberFreeElements (map JString xs)"
  by (induction xs) auto

lemma numberFree_address: "numberFree (addressToJson a)"
  by (simp add: addressToJson_def optionalProperty_def split: option.splits)

lemma numberFree_addresses: "numberFreeElements (map addressToJson xs)"
  by (induction xs) (auto simp: numberFree_address)

lemma numberFreeMembers_append:
  "numberFreeMembers (ps @ qs) \<longleftrightarrow> numberFreeMembers ps \<and> numberFreeMembers qs"
  by (induction ps) auto

lemma numberFree_entity: "numberFree (entityToJson e)"
  by (simp add: entityToJson_def optionalProperty_def numberFreeMembers_append
        numberFree_strings numberFree_addresses split: option.splits)

lemma numberFree_entitiesToJson: "numberFree (entitiesToJson es)"
  by (induction es) (auto simp: entitiesToJson_def numberFree_entity)

subsection \<open>Search handler\<close>

lemma orElse_blank: "trim (orElse (qParam req) []) = [] \<longleftrightarrow> blankQuery req"
  by (cases "qParam req") (auto simp: orElse_def blankQuery_def)

lemma orElse_Some: "trim q \<noteq> [] \<Longrightarrow> orElse (Some q) [] = q"
  by (auto simp: orElse_def)

lemma decode_example [simp]:
  "decodeDataset examplePlatform (JSON_stringify (entitiesToJson es)) = Inr es"
  by (simp add: decodeDataset_def examplePlatform_def JSON_parse_stringify
        numberFree_entitiesToJson entitiesFromJson_entitiesToJson)

lemmas number_eval = decimalNumber_def unsignedDecimal_def digitsValue_def isDigit_def js_def
  trim_def isWhiteSpace_def

text \<open>
  Claim C10. The search handler trims \<open>q\<close> before it validates it. A request whose \<open>q\<close> is
  absent, empty or only whitespace gets the response 400 with no effect at all: the store
  is not read and the cache stays as it was. A request with any other \<open>q\<close> whose dataset
  loads hands the trimmed \<open>q\<close> to the fuzzy search and reports the trimmed \<open>q\<close>.
\<close>

theorem search_trims_then_validates:
  "(blankQuery req \<longrightarrow>
      searchHandler P now later req store cached =
        (Inr \<lparr> status = 400, body = Failure (js ''Missing ?q='') None, cacheControl = None \<rparr>,
         cached, [])) \<and>
   (qParam req = Some q \<and> trim q \<noteq> [] \<and>
    loadDataset P now later store cached = (Inr c, effects) \<longrightarrow>
      searchHandler P now later req store cached =
        (Inr \<lparr> status = 200,
               body = SearchOk (trim q)
                 (length (fuseSearch P (cachedEntities c) (trim q) (searchLimit P (limitParam req))))
                 (map toSearchResult
                    (fuseSearch P (cachedEntities c) (trim q) (searchLimit P (limitParam req)))),
               cacheControl = Some ''public, max-age=30'' \<rparr>,
         Some c,
         effects @ [FuseSearch (trim q) (searchLimit P (limitParam req))]))"
proof (intro conjI impI)
  assume "blankQuery req"
  then have "trim (orElse (qParam req) []) = []"
    by (simp add: orElse_blank)
  then show "searchHandler P now later req store cached =
        (Inr \<lparr> status = 400, body = Failure (js ''Missing ?q='') None, cacheControl = None \<rparr>,
         cached, [])"
    by (simp add: searchHandler_def)
next
  assume h: "qParam req = Some q \<and> trim q \<noteq> [] \<and>
    loadDataset P now later store cached = (Inr c, effects)"
  then have "orElse (qParam req) [] = q"
    by (simp add: orElse_Some)
  then show "searchHandler P now later req store cached =
        (Inr \<lparr> status = 200,
               body = SearchOk (trim q)
                 (length (fuseSearch P (cachedEntities c) (trim q) (searchLimit P (limitParam req))))
                 (map toSearchResult
                    (fuseSearch P (cachedEntities c) (trim q) (searchLimit P (limitParam req)))),
               cacheControl = Some ''public, max-age=30'' \<rparr>,
         Some c,
         effects @ [FuseSearch (trim q) (searchLimit P (limitParam req))])"
    using h by (simp add: searchHandler_def Let_def)
qed

theorem search_trims_then_validates_witness:
  "blankQuery \<lparr> qParam = Some (js ''   ''), limitParam = None \<rparr> \<and>
   searchHandler examplePlatform 0 0 \<lparr> qParam = Some (js ''   ''), limitParam = None \<rparr>
       johnStore None =
     (Inr \<lparr> status = 400, body = Failure (js ''Missing ?q='') None, cacheControl = None \<rparr>,
      None, []) \<and>
   snd (snd (searchHandler examplePlatform 0 0
       \<lparr> qParam = Some (js '' doe ''), limitParam = None \<rparr> johnStore None)) =
     [StoreGet ''dataset.json.gz'', FuseSearch (js ''doe'') (Num 20)]"
proof -
  have b: "blankQuery \<lparr> qParam = Some (js ''   ''), limitParam = None \<rparr>"
    by (simp add: blankQuery_def js_def trim_def isWhiteSpace_def)
  have t: "trim (js '' doe '') = js ''doe''"
    by (simp add: js_def trim_def isWhiteSpace_def)
  have l: "loadDataset examplePlatform 0 0 johnStore None =
             (Inr \<lparr> loadedAt = 0, cachedEntities = [john] \<rparr>, [StoreGet ''dataset.json.gz''])"
    by (simp add: loadDataset_def readDataset_def johnStore_def)
  have n: "searchLimit examplePlatform None = Num 20"
    by (simp add: searchLimit_def orElse_def Math_min_def examplePlatform_def number_eval)
  have q: "js ''doe'' \<noteq> []"
    by (simp add: js_def)
  show ?thesis
    using b search_trims_then_validates
        [of "\<lparr> qParam = Some (js ''   ''), limitParam = None \<rparr>" examplePlatform 0 0
            johnStore None]
      search_trims_then_validates
        [where req = "\<lparr> qParam = Some (js '' doe ''), limitParam = None \<rparr>"
           and q = "js '' doe ''" and P = examplePlatform and now = 0 and later = 0
           and store = johnStore and cached = None
           and c = "\<lparr> loadedAt = 0, cachedEntities = [john] \<rparr>"
           and effects = "[StoreGet ''dataset.json.gz'']"]
    by (simp add: t l n q)
qed

text \<open>
  Claim C8 fails on the code at a limit that is not a number. For a request that passes
  validation with a \<open>limit\<close> parameter which \<open>Number\<close> takes for not a number, and whose
  dataset loads, the handler hands the limit not-a-number to the fuzzy search and returns
  as many results as the search returns for that limit, whatever their number is.
\<close>

theorem search_limit_not_a_number:
  "qParam req = Some q \<and> trim q \<noteq> [] \<and> limitParam req = Some p \<and> p \<noteq> [] \<and>
   toNumber P p = NaN \<and> loadDataset P now later store cached = (Inr c, effects) \<longrightarrow>
     searchLimit P (limitParam req) = NaN \<and>
     resultCount (fst (searchHandler P now later req store cached)) =
       Some (length (fuseSearch P (cachedEntities c) (trim q) NaN))"
proof
  assume h: "qParam req = Some q \<and> trim q \<noteq> [] \<and> limitParam req = Some p \<and> p \<noteq> [] \<and>
   toNumber P p = NaN \<and> loadDataset P now later store cached = (Inr c, effects)"
  then have l: "searchLimit P (limitParam req) = NaN"
    by (simp add: searchLimit_def orElse_def Math_min_def)
  have "orElse (qParam req) [] = q"
    using h by (simp add: orElse_Some)
  then have "resultCount (fst (searchHandler P now later req store cached)) =
       Some (length (fuseSearch P (cachedEntities c) (trim q) NaN))"
    using h l by (simp add: searchHandler_def Let_def resultCount_def)
  with l show "searchLimit P (limitParam req) = NaN \<and>
     resultCount (fst (searchHandler P now later req store cached)) =
       Some (length (fuseSearch P (cachedEntities c) (trim q) NaN))"
    by simp
qed

theorem search_limit_not_a_number_witness:
  "toNumber examplePlatform (js ''abc'') = NaN \<and>
   resultCount (fst (searchHandler examplePlatform 0 0
       \<lparr> qParam = Some (js ''doe''), limitParam = Some (js ''abc'') \<rparr> emptyStore
       (Some \<lparr> loadedAt = 0, cachedEntities = replicate 51 john \<rparr>))) = Some 51"
proof -
  have n: "toNumber examplePlatform (js ''abc'') = NaN"
    by (simp add: examplePlatform_def number_eval)
  have t: "trim (js ''doe'') = js ''doe''" "js ''doe'' \<noteq> []" "js ''abc'' \<noteq> []"
    by (simp_all add: js_def trim_def isWhiteSpace_def)
  have l: "loadDataset examplePlatform 0 0 emptyStore
             (Some \<lparr> loadedAt = 0, cachedEntities = replicate 51 john \<rparr>) =
           (Inr \<lparr> loadedAt = 0, cachedEntities = replicate 51 john \<rparr>, [])"
    by (simp add: loadDataset_def)
  have f: "length (fuseSearch examplePlatform (replicate 51 john) (js ''doe'') NaN) = 51"
    by (simp add: examplePlatform_def everyEntity_def)
  show ?thesis
    using search_limit_not_a_number
        [where req = "\<lparr> qParam = Some (js ''doe''), limitParam = Some (js ''abc'') \<rparr>"
           and q = "js ''doe''" and p = "js ''abc''" and P = examplePlatform
           and now = 0 and later = 0 and store = emptyStore
           and cached = "Some \<lparr> loadedAt = 0, cachedEntities = replicate 51 john \<rparr>"
           and c = "\<lparr> loadedAt = 0, cachedEntities = replicate 51 john \<rparr>"
           and effects = "[]"]
    by (simp add: n t l f)
qed

text \<open>
  On the other requests: without a \<open>limit\<close> parameter, or with an empty one, the limit
  is what \<open>Number\<close> makes of \<open>20\<close>; and the limit is never a number above 50.
\<close>

lemma searchLimit_default:
  "toNumber P (js ''20'') = Num 20 \<Longrightarrow>
     searchLimit P None = Num 20 \<and> searchLimit P (Some []) = Num 20"
  by (simp add: searchLimit_def orElse_def Math_min_def)

lemma searchLimit_clamped: "searchLimit P param = NaN \<or> \<not> numLess (Num 50) (searchLimit P param)"
  by (cases "toNumber P (orElse param (js ''20''))")
     (auto simp: searchLimit_def Math_min_def)

subsection \<open>Ingestion run\<close>

text \<open>
  Claim C2 fails on the code. When the primary table is fetched and the fetch of the alias
  table, or after it of the address table, fails, the handler answers 500 with the text
  of the error and leaves the store as it was: the run is not persisted.
\<close>

theorem auxiliary_fetch_failure_aborts:
  "fetchText P sdnCsvUrl = Inr sdnCsv \<and>
   (fetchText P altCsvUrl = Inl err \<or>
    fetchText P altCsvUrl = Inr altCsv \<and> fetchText P addCsvUrl = Inl err) \<longrightarrow>
     updateHandler P stamp debug store =
       (\<lparr> status = 500, body = Failure (errorText err) None, cacheControl = None \<rparr>, store) \<and>
     \<not> persisted (updateHandler P stamp debug store)"
  by (auto simp: updateHandler_def updateRun_def persisted_def)

theorem auxiliary_fetch_failure_aborts_witness:
  "fetchText examplePlatform sdnCsvUrl = Inr (js ''ent_num,sdn_name'') \<and>
   fetchText examplePlatform altCsvUrl =
     Inl (Error (js ''OFAC fetch failed 404 Not Found :: '' @ altCsvUrl @ [0x0A] @ js ''gone'')) \<and>
   status (fst (updateHandler examplePlatform (js ''2024-01-15T10:30:00.000Z'') None emptyStore)) = 500 \<and>
   snd (updateHandler examplePlatform (js ''2024-01-15T10:30:00.000Z'') None emptyStore) = emptyStore \<and>
   \<not> persisted (updateHandler examplePlatform (js ''2024-01-15T10:30:00.000Z'') None emptyStore)"
proof -
  have a: "fetchText examplePlatform altCsvUrl =
     Inl (Error (js ''OFAC fetch failed 404 Not Found :: '' @ altCsvUrl @ [0x0A] @ js ''gone''))"
    by (simp add: fetchText_def examplePlatform_def aliasTableMissing_def decimal.simps js_def)
  have s: "fetchText examplePlatform sdnCsvUrl = Inr (js ''ent_num,sdn_name'')"
    by (simp add: fetchText_def examplePlatform_def aliasTableMissing_def sdnCsvUrl_def
          altCsvUrl_def js_def)
  show ?thesis
    using a s auxiliary_fetch_failure_aborts
        [where P = examplePlatform and sdnCsv = "js ''ent_num,sdn_name''"
           and err = "Error (js ''OFAC fetch failed 404 Not Found :: '' @ altCsvUrl @ [0x0A]
                        @ js ''gone'')"
           and stamp = "js ''2024-01-15T10:30:00.000Z''" and debug = None
           and store = emptyStore]
    by (simp add: persisted_def)
qed

subsection \<open>Reading without a dataset\<close>

text \<open>
  Claim C7, as stated, fails: a search request without \<open>q\<close>, made while the store is empty,
  gets the response 400 for a malformed request, and an entity request without uid
  likewise; the store is not even read.
\<close>

theorem no_data_counterexample:
  "searchHandler examplePlatform 0 0 \<lparr> qParam = None, limitParam = None \<rparr> emptyStore None =
     (Inr \<lparr> status = 400, body = Failure (js ''Missing ?q='') None, cacheControl = None \<rparr>,
      None, []) \<and>
   entityHandler examplePlatform 0 0 None emptyStore None =
     (Inr \<lparr> status = 400, body = Failure (js ''Missing :uid'') None, cacheControl = None \<rparr>,
      None, [])"
  by (simp add: searchHandler_def entityHandler_def orElse_def)

text \<open>
  Claim C7, amended. While the store holds neither blob and no cache is filled, a search
  request with a non-blank \<open>q\<close> and an entity request with a uid end in the thrown error
  \<open>No dataset yet\<close>, and a metadata request in the response 404 with that text. A uid that
  a loaded dataset lacks gets the response 404 \<open>Not found\<close> with the uid, which is none of
  the three. A search request with a blank \<open>q\<close> and an entity request with no uid, or
  with the empty one, get the response 400 whatever the store and the cache hold; nothing
  is read and the cache stays as it was.
\<close>

theorem no_data_differs_from_not_found:
  "(datasetBlob store = None \<and> metaBlob store = None \<longrightarrow>
      (\<not> blankQuery req \<longrightarrow>
         searchHandler P now later req store None =
           (Inl (Error (js ''No dataset yet. Call /api/update or wait for schedule.'')),
            None, [StoreGet ''dataset.json.gz''])) \<and>
      (u \<noteq> [] \<longrightarrow>
         entityHandler P now later (Some u) store None =
           (Inl (Error (js ''No dataset yet.'')), None, [StoreGet ''dataset.json.gz''])) \<and>
      metaHandler store = (Inr noMetadataYet, [StoreGet ''meta.json''])) \<and>
   (u \<noteq> [] \<and> loadById P now later store cached = (Inr c, effects) \<and> byId c u = None \<longrightarrow>
      entityHandler P now later (Some u) store cached = (Inr (notFound u), Some c, effects)) \<and>
   Inl (Error (js ''No dataset yet. Call /api/update or wait for schedule.'')) \<noteq> Inr (notFound u) \<and>
   Inl (Error (js ''No dataset yet.'')) \<noteq> Inr (notFound u) \<and>
   noMetadataYet \<noteq> notFound u \<and>
   (blankQuery req \<longrightarrow>
      searchHandler P now later req store held =
        (Inr \<lparr> status = 400, body = Failure (js ''Missing ?q='') None, cacheControl = None \<rparr>,
         held, [])) \<and>
   entityHandler P now later None store cached =
     (Inr \<lparr> status = 400, body = Failure (js ''Missing :uid'') None, cacheControl = None \<rparr>,
      cached, []) \<and>
   entityHandler P now later (Some []) store cached =
     (Inr \<lparr> status = 400, body = Failure (js ''Missing :uid'') None, cacheControl = None \<rparr>,
      cached, [])"
proof -
  have search: "searchHandler P now later req store None =
           (Inl (Error (js ''No dataset yet. Call /api/update or wait for schedule.'')),
            None, [StoreGet ''dataset.json.gz''])"
    if "datasetBlob store = None" and "\<not> blankQuery req"
    using that
    by (simp add: searchHandler_def loadDataset_def readDataset_def orElse_blank)
  have entity: "entityHandler P now later (Some u) store None =
           (Inl (Error (js ''No dataset yet.'')), None, [StoreGet ''dataset.json.gz''])"
    if "datasetBlob store = None" and "u \<noteq> []"
    using that by (simp add: entityHandler_def loadById_def readById_def)
  have meta: "metaHandler store = (Inr noMetadataYet, [StoreGet ''meta.json''])"
    if "metaBlob store = None"
    using that by (simp add: metaHandler_def noMetadataYet_def)
  have missing: "entityHandler P now later (Some u) store cached = (Inr (notFound u), Some c, effects)"
    if "u \<noteq> []" and "loadById P now later store cached = (Inr c, effects)" and "byId c u = None"
    using that by (simp add: entityHandler_def notFound_def)
  have differ: "noMetadataYet \<noteq> notFound u"
    by (simp add: noMetadataYet_def notFound_def)
  have noQuery: "searchHandler P now later req store held =
        (Inr \<lparr> status = 400, body = Failure (js ''Missing ?q='') None, cacheControl = None \<rparr>,
         held, [])"
    if "blankQuery req"
    using that by (simp add: searchHandler_def orElse_blank)
  have noUid: "entityHandler P now later None store cached =
     (Inr \<lparr> status = 400, body = Failure (js ''Missing :uid'') None, cacheControl = None \<rparr>,
      cached, [])"
    by (simp add: entityHandler_def)
  have emptyUid: "entityHandler P now later (Some []) store cached =
     (Inr \<lparr> status = 400, body = Failure (js ''Missing :uid'') None, cacheControl = None \<rparr>,
      cached, [])"
    by (simp add: entityHandler_def)
  show ?thesis
    using search entity meta missing differ noQuery noUid emptyUid by blast
qed

theorem no_data_differs_from_not_found_witness:
  "searchHandler examplePlatform 0 0 \<lparr> qParam = Some (js ''doe''), limitParam = None \<rparr>
       emptyStore None =
     (Inl (Error (js ''No dataset yet. Call /api/update or wait for schedule.'')),
      None, [StoreGet ''dataset.json.gz'']) \<and>
   entityHandler examplePlatform 0 0 (Some (js ''123'')) emptyStore None =
     (Inl (Error (js ''No dataset yet.'')), None, [StoreGet ''dataset.json.gz'']) \<and>
   metaHandler emptyStore = (Inr noMetadataYet, [StoreGet ''meta.json'']) \<and>
   fst (entityHandler examplePlatform 0 0 (Some (js ''999'')) johnStore None) =
     Inr (notFound (js ''999'')) \<and>
   searchHandler examplePlatform 0 0 \<lparr> qParam = Some (js ''  ''), limitParam = None \<rparr>
       johnStore None =
     (Inr \<lparr> status = 400, body = Failure (js ''Missing ?q='') None, cacheControl = None \<rparr>,
      None, []) \<and>
   entityHandler examplePlatform 0 0 None johnStore None =
     (Inr \<lparr> status = 400, body = Failure (js ''Missing :uid'') None, cacheControl = None \<rparr>,
      None, [])"
proof -
  have e: "datasetBlob emptyStore = None" "metaBlob emptyStore = None"
    by (simp_all add: emptyStore_def)
  have b: "\<not> blankQuery \<lparr> qParam = Some (js ''doe''), limitParam = None \<rparr>"
    by (simp add: blankQuery_def js_def trim_def isWhiteSpace_def)
  have k: "blankQuery \<lparr> qParam = Some (js ''  ''), limitParam = None \<rparr>"
    by (simp add: blankQuery_def js_def trim_def isWhiteSpace_def)
  have u: "js ''123'' \<noteq> []" "js ''999'' \<noteq> []"
    by (simp_all add: js_def)
  have l: "loadById examplePlatform 0 0 johnStore None =
             (Inr \<lparr> byIdLoadedAt = 0, byId = indexById [john] \<rparr>, [StoreGet ''dataset.json.gz''])"
    by (simp add: loadById_def readById_def johnStore_def)
  have m: "indexById [john] (js ''999'') = None"
    by (simp add: indexById_def john_def js_def)
  show ?thesis
    using e b k u
      no_data_differs_from_not_found
        [where store = emptyStore and req = "\<lparr> qParam = Some (js ''doe''), limitParam = None \<rparr>"
           and u = "js ''123''" and P = examplePlatform and now = 0 and later = 0]
      no_data_differs_from_not_found
        [where store = johnStore and u = "js ''999''" and P = examplePlatform and now = 0
           and later = 0 and cached = None
           and req = "\<lparr> qParam = Some (js ''  ''), limitParam = None \<rparr>" and held = None
           and c = "\<lparr> byIdLoadedAt = 0, byId = indexById [john] \<rparr>"
           and effects = "[StoreGet ''dataset.json.gz'']"]
    by (simp add: l m)
qed

subsection \<open>Serialization round trip\<close>

text \<open>The text of an entity, and a text with spaces and escapes read back.\<close>

lemmas json_eval = JSON_stringify_def entitiesToJson_def entityToJson_def addressToJson_def
  optionalProperty_def quoteJSONString_def escapeUnit_def isLeadSurrogate_def
  isTrailSurrogate_def js_def

lemma stringify_example:
  \<open>JSON_stringify (entitiesToJson [sparse]) =
     js ''[{"uid":"999","name":"Complex Entity","type":"","programs":[],"aka":["Alias 1"],"addresses":[{"city":"Chicago"}]}]''\<close>
  by (simp add: json_eval sparse_def)

lemma parse_example:
  \<open>JSON_parse (js ''[ {"uid": "7", "name": "A", "programs": [], "aka": [],  "addresses": [ ]} ]'') =
     Inr (JArray [JObject [(js ''uid'', JString (js ''7'')), (js ''name'', JString (js ''A'')),
       (js ''programs'', JArray []), (js ''aka'', JArray []), (js ''addresses'', JArray [])]])\<close>
  by code_simp

lemma parse_escapes:
  "parseChars (js ''A'' @ [0x5C] @ js ''u00e9'' @ [0x5C] @ js ''n'' @ [0x22] @ js '', 1'') =
     Some ([0x41, 0xE9, 0x0A], js '', 1'')"
  by (simp add: js_def unescape_def hex4_def hexValue_def consUnit_def)

lemma decode_encode:
  assumes "losslessBuffers P"
  shows "decodeDataset P (encodeDataset P x) = Inr x"
proof -
  let ?text = "JSON_stringify (entitiesToJson x)"
  have "wellFormed ?text"
    by (simp add: wellFormed_JSON_stringify numberFree_entitiesToJson)
  then have "utf8Decode P (utf8Encode P ?text) = ?text"
    using assms by (simp add: losslessBuffers_def)
  moreover have "gunzipSync P (gzipSync P (utf8Encode P ?text)) = Inr (utf8Encode P ?text)"
    using assms by (simp add: losslessBuffers_def)
  ultimately show ?thesis
    by (simp add: decodeDataset_def encodeDataset_def JSON_parse_stringify
          numberFree_entitiesToJson entitiesFromJson_entitiesToJson)
qed

text \<open>
  Claim C3. For every entity sequence, the text that \<open>JSON.stringify\<close> writes parses back
  to the same entities in the same order, each optional field absent where it was absent
  and present with the same string where it was present, and that text is well-formed
  UTF-16. Hence on every platform whose UTF-8 buffers give well-formed text back and
  whose gunzip undoes its gzip, decoding the blob that encoding produced gives the
  sequence back.
\<close>

theorem codec_round_trip:
  "JSON_parse (JSON_stringify (entitiesToJson x)) = Inr (entitiesToJson x) \<and>
   entitiesFromJson (entitiesToJson x) = Some x \<and>
   wellFormed (JSON_stringify (entitiesToJson x)) \<and>
   (losslessBuffers P \<longrightarrow> decodeDataset P (encodeDataset P x) = Inr x)"
  by (simp add: JSON_parse_stringify numberFree_entitiesToJson entitiesFromJson_entitiesToJson
        wellFormed_JSON_stringify decode_encode)

theorem codec_round_trip_witness:
  "losslessBuffers examplePlatform \<and>
   decodeDataset examplePlatform (encodeDataset examplePlatform [john, sparse]) =
     Inr [john, sparse] \<and>
   type john = None \<and> type sparse = Some [] \<and>
   map address (addresses sparse) = [None]"
proof -
  have l: "losslessBuffers examplePlatform"
    by (simp add: losslessBuffers_def examplePlatform_def)
  have f: "type john = None" "type sparse = Some []" "map address (addresses sparse) = [None]"
    by (simp_all add: john_def sparse_def)
  show ?thesis
    using l f codec_round_trip [of "[john, sparse]" examplePlatform]
    by simp
qed

subsection \<open>Further properties of the handlers\<close>

text \<open>
  What the clamp of the limit achieves: with a library that honours numeric limits, a
  request whose limit is absent (and read as 20) or a number from 0 on gets no more
  results than that limit and no more than 50.
\<close>

lemma search_count_bounded:
  assumes lib: "honoursLimit P"
    and num: "toNumber P (orElse (limitParam req) (js ''20'')) = Num n" and pos: "0 \<le> n"
    and q: "qParam req = Some q" "trim q \<noteq> []"
    and load: "loadDataset P now later store cached = (Inr c, effects)"
  shows "\<exists>k. resultCount (fst (searchHandler P now later req store cached)) = Some k \<and>
             k \<le> 50 \<and> real k \<le> n"
proof -
  have lim: "searchLimit P (limitParam req) = Num (min n 50)"
    using num by (auto simp: searchLimit_def Math_min_def min_def)
  let ?hits = "fuseSearch P (cachedEntities c) (trim q) (Num (min n 50))"
  have "orElse (qParam req) [] = q"
    using q by (simp add: orElse_Some)
  then have count: "resultCount (fst (searchHandler P now later req store cached)) =
      Some (length ?hits)"
    using q load lim by (simp add: searchHandler_def Let_def resultCount_def)
  have "0 \<le> min n 50" using pos by simp
  then have le: "length ?hits \<le> nat \<lfloor>min n 50\<rfloor>"
    using lib by (simp add: honoursLimit_def)
  have "nat \<lfloor>min n 50\<rfloor> \<le> 50"
    by (simp add: le_nat_floor min_def nat_le_iff floor_le_iff)
  moreover have "real (nat \<lfloor>min n 50\<rfloor>) \<le> n"
    using pos by (simp add: min_def)
  ultimately have "length ?hits \<le> 50" and "real (length ?hits) \<le> n"
    using le by linarith+
  with count show ?thesis by blast
qed

text \<open>
  A run whose three fetches and three parses succeed, outside debug mode, is persisted:
  the store then holds the encoded consolidation of the three tables, and on a platform
  whose codec loses nothing the next cold read decodes exactly that consolidation.
\<close>

lemma update_persists:
  assumes "fetchText P sdnCsvUrl = Inr sdnCsv" and "fetchText P altCsvUrl = Inr altCsv"
    and "fetchText P addCsvUrl = Inr addCsv"
    and "parseCSV P sdnCsv = Inr sdnRows" and "parseCSV P altCsv = Inr altRows"
    and "parseCSV P addCsv = Inr addRows" and "debug \<noteq> Some (js ''1'')"
  shows "persisted (updateHandler P stamp debug store)"
    and "datasetBlob (snd (updateHandler P stamp debug store)) =
           Some (encodeDataset P
             (consolidateAddData (consolidateAltData (extractEntities sdnRows) altRows) addRows))"
  using assms by (simp_all add: updateHandler_def updateRun_def persisted_def Let_def)

lemma update_then_read:
  assumes "datasetBlob store = Some (encodeDataset P entities)"
    and "losslessBuffers P"
  shows "loadDataset P now later store None =
           (Inr \<lparr> loadedAt = later, cachedEntities = entities \<rparr>, [StoreGet ''dataset.json.gz''])"
  using assms by (simp add: loadDataset_def readDataset_def decode_encode)

end
